theory Spec2Isabelle
  imports Main "HOL-Library.Sublist"
begin

section \<open>The development-server supervisor (ServerApi.ts)\<close>

text \<open>
  The class \<open>ServerApi\<close> supervises one external game-server process. Its methods and
  the callbacks it installs are embedded as functions on a \<open>world\<close>: the fields of the
  object, the event bus it talks to (\<open>client\<close>), and the parts of the platform its
  callbacks observe (filesystem, child processes, the local IPC endpoint).

  An \<open>async\<close> method is embedded as one atomic function: the supervisor assumes that
  lifecycle commands are issued one at a time. A rejected promise is the result
  \<open>Rejected\<close>, together with the world as the method left it.
\<close>

subsection \<open>Values\<close>

text \<open>
  Modelled from the spec: the enum \<open>ServerStates\<close> of \<open>api.types\<close>, which is not among
  the sources; the spec gives its values as down, booting and up, and the class starts
  in \<open>ServerStates.down\<close>.
\<close>

datatype ServerStates = Down | Booting | Up

text \<open>What \<open>JSON.parse\<close> returns. A number is kept as its literal: nothing computes with it.\<close>

datatype json =
    JNull
  | JBool bool
  | JNum string
  | JStr string
  | JArr "json list"
  | JObj "(string \<times> json) list"

text \<open>
  Modelled from the spec: the request types of \<open>api.types\<close>, with the fields that the
  class takes from them. A refresh request has the fields of a start request.
\<close>

record ServerStartRequest =
  projectPath :: string
  enabledResourcesPaths :: "string list"

type_synonym ServerRefreshResourcesRequest = ServerStartRequest

text \<open>
  Modelled from the spec: the relink request of \<open>api.types\<close>. Its
  \<open>restartResourcesWithPath\<close> is optional: \<open>None\<close> is \<open>undefined\<close>.
\<close>

record RelinkResourcesRequest =
  relinkProjectPath :: string
  resourcesPaths :: "string list"
  restartResourcesWithPath :: "string option"

text \<open>The constants of \<open>../paths\<close> that the class reads; they are parameters here.\<close>

record paths =
  sdkGame :: string
  serverContainer :: string

definition latestVersion :: string where
  "latestVersion = ''2972''"

subsection \<open>Paths\<close>

text \<open>
  \<open>path.join\<close> and \<open>path.basename\<close> of the platform, in their POSIX flavour and for
  segments that need no normalisation. \<open>path.join\<close> skips an empty segment;
  \<open>path.basename\<close> ignores trailing separators.
\<close>

definition path_join :: "string \<Rightarrow> string \<Rightarrow> string" where
  "path_join a b = (if b = [] then a else if a = [] then b else a @ ''/'' @ b)"

definition path_basename :: "string \<Rightarrow> string" where
  "path_basename p =
     rev (takeWhile (\<lambda>c. c \<noteq> CHR ''/'') (dropWhile (\<lambda>c. c = CHR ''/'') (rev p)))"

text \<open>\<open>String.prototype.startsWith\<close>.\<close>

definition startsWith :: "string \<Rightarrow> string \<Rightarrow> bool" where
  "startsWith s p = prefix p s"

definition getProjectServerPath :: "string \<Rightarrow> string" where
  "getProjectServerPath project = path_join project ''.fxserver''"

subsection \<open>The filesystem\<close>

text \<open>
  The filesystem maps a path to what is there. \<open>denied\<close> holds the calls the operating
  system refuses for reasons outside the model (permissions, locks); it is a fixed
  property of the filesystem. Intermediate directories are not tracked: no operation
  of the supervisor reads them.
\<close>

datatype fs_node = Dir | File | Link string

datatype fs_call = Rimraf string | Mkdirp string | Symlink string string

text \<open>An error of a filesystem call: its code and the call that failed.\<close>

datatype errno = EPERM | EEXIST

datatype fs_error = FsError errno fs_call

record filesystem =
  entries :: "string \<rightharpoonup> fs_node"
  denied :: "fs_call \<Rightarrow> bool"

definition under :: "string \<Rightarrow> string \<Rightarrow> bool" where
  "under d p \<longleftrightarrow> p = d \<or> prefix (d @ ''/'') p"

text \<open>What \<open>rimraf\<close> leaves: nothing at \<open>d\<close> nor below it.\<close>

definition cleared :: "string \<Rightarrow> filesystem \<Rightarrow> filesystem" where
  "cleared d f = f\<lparr>entries := (\<lambda>p. if under d p then None else entries f p)\<rparr>"

fun fs_exec :: "fs_call \<Rightarrow> filesystem \<Rightarrow> fs_error + filesystem" where
  "fs_exec (Rimraf d) f =
     (if denied f (Rimraf d) then Inl (FsError EPERM (Rimraf d))
      else Inr (cleared d f))"
| "fs_exec (Mkdirp d) f =
     (if denied f (Mkdirp d) then Inl (FsError EPERM (Mkdirp d))
      else case entries f d of
             None \<Rightarrow> Inr (f\<lparr>entries := (entries f)(d \<mapsto> Dir)\<rparr>)
           | Some Dir \<Rightarrow> Inr f
           | Some _ \<Rightarrow> Inl (FsError EEXIST (Mkdirp d)))"
| "fs_exec (Symlink s d) f =
     (if denied f (Symlink s d) then Inl (FsError EPERM (Symlink s d))
      else case entries f d of
             None \<Rightarrow> Inr (f\<lparr>entries := (entries f)(d \<mapsto> Link s)\<rparr>)
           | Some _ \<Rightarrow> Inl (FsError EEXIST (Symlink s d)))"

text \<open>
  \<open>e.toString()\<close> of such an error, as the platform prints it: the code and its
  description, then the call with its paths in single quotes, such as
  \<open>Error: EEXIST: file already exists, symlink '/p/res/a' -> '/p/.fxserver/resources/a'\<close>.
\<close>

fun errno_text :: "errno \<Rightarrow> string" where
  "errno_text EPERM = ''EPERM: operation not permitted''"
| "errno_text EEXIST = ''EEXIST: file already exists''"

definition quoted :: "string \<Rightarrow> string" where
  "quoted p = [CHR 0x27] @ p @ [CHR 0x27]"

fun fs_call_text :: "fs_call \<Rightarrow> string" where
  "fs_call_text (Rimraf d) = ''rmdir '' @ quoted d"
| "fs_call_text (Mkdirp d) = ''mkdir '' @ quoted d"
| "fs_call_text (Symlink s d) = ''symlink '' @ quoted s @ '' -> '' @ quoted d"

fun error_toString :: "fs_error \<Rightarrow> string" where
  "error_toString (FsError code call) = ''Error: '' @ errno_text code @ '', '' @ fs_call_text call"

subsection \<open>The event bus and the world\<close>

datatype log_entry =
    LogStartingServer string "string list"
  | LogServerFailedToStart
  | LogServerOutput string
  | LogFailedToLinkResource string
  | LogRestartingResource string
  | LogNoIpcSocket string "string option"
  | LogSendingIpcEvent string "string option"
  | LogIpcConnection
  | LogErrorParsingMessage string

datatype client_emit =
    EmitClearOutput
  | EmitState ServerStates
  | EmitOutput string
  | EmitResourcesState "json option"

text \<open>The bus events for which a connection registers a forwarding handler.\<close>

datatype forwarded = AckResourcesState | RestartResource | StopResource | StartResource

text \<open>
  One listening endpoint made by \<open>setupIpc\<close>: whether it still listens, and the
  \<open>disposableHandlers\<close> of that call's closure.
\<close>

record ipc_endpoint =
  listening :: bool
  disposableHandlers :: "nat list"

text \<open>
  The fields of \<open>ServerApi\<close> come first. Then the bus: what was logged and emitted, the
  handlers registered with \<open>client.on\<close> by connections (each under a fresh number),
  as a record of what happened, the numbers of the handlers the bus has invoked, and
  for every handler ever registered the connection that registered it (the handler's
  number, the socket, the endpoint).
  Then the platform: the filesystem and the calls made to it, the endpoints and open
  sockets, what was written to each socket (the pair stands for
  \<open>JSON.stringify([eventType, data]) + '\n'\<close>), the child processes whose \<open>exit\<close> and
  output callbacks are installed, the processes sent \<open>SIGKILL\<close>, and the \<open>execFile\<close>
  calls (path, arguments, working directory).
\<close>

record world =
  state :: ServerStates
  ipcServer :: "nat option"
  ipcSocket :: "nat option"
  server :: "nat option"
  currentEnabledResourcesPaths :: "string list"
  clientLog :: "log_entry list"
  emitted :: "client_emit list"
  registered :: "(nat \<times> forwarded) list"
  invoked :: "nat list"
  registeredBy :: "(nat \<times> nat \<times> nat) list"
  fs :: filesystem
  syscalls :: "fs_call list"
  endpoints :: "nat \<rightharpoonup> ipc_endpoint"
  sockets :: "(nat \<times> nat) list"
  written :: "(nat \<times> string \<times> string option) list"
  children :: "nat list"
  killed :: "nat list"
  execs :: "(string \<times> string list \<times> string) list"
  nextId :: nat

text \<open>The object after its constructor, on a given filesystem.\<close>

definition init :: "filesystem \<Rightarrow> world" where
  "init f = \<lparr> state = Down, ipcServer = None, ipcSocket = None, server = None,
     currentEnabledResourcesPaths = [], clientLog = [], emitted = [], registered = [],
     invoked = [], registeredBy = [], fs = f, syscalls = [], endpoints = Map.empty, sockets = [],
     written = [], children = [], killed = [], execs = [], nextId = 0 \<rparr>"

datatype result = Resolved | Rejected fs_error

text \<open>
  Modelled from the spec: \<open>log\<close> and \<open>emit\<close> of the \<open>ApiClient\<close>, whose code is not among
  the sources. The bus is opaque to the supervisor; the calls are recorded in order.
\<close>

definition client_log :: "log_entry \<Rightarrow> world \<Rightarrow> world" where
  "client_log l w = w\<lparr>clientLog := clientLog w @ [l]\<rparr>"

definition client_emit :: "client_emit \<Rightarrow> world \<Rightarrow> world" where
  "client_emit e w = w\<lparr>emitted := emitted w @ [e]\<rparr>"

text \<open>A filesystem call: it is recorded, and it changes the filesystem when it succeeds.\<close>

definition sys :: "fs_call \<Rightarrow> world \<Rightarrow> fs_error option \<times> world" where
  "sys c w =
     (case fs_exec c (fs w) of
        Inl e \<Rightarrow> (Some e, w\<lparr>syscalls := syscalls w @ [c]\<rparr>)
      | Inr f \<Rightarrow> (None, w\<lparr>fs := f, syscalls := syscalls w @ [c]\<rparr>))"

subsection \<open>Methods of ServerApi\<close>

definition ackState :: "world \<Rightarrow> world" where
  "ackState w = client_emit (EmitState (state w)) w"

definition toState :: "ServerStates \<Rightarrow> world \<Rightarrow> world" where
  "toState newState w = ackState (w\<lparr>state := newState\<rparr>)"

definition kill :: "nat \<Rightarrow> world \<Rightarrow> world" where
  "kill pid w = w\<lparr>killed := killed w @ [pid]\<rparr>"

definition stop :: "world \<Rightarrow> world" where
  "stop w = (case server w of None \<Rightarrow> w | Some pid \<Rightarrow> kill pid w)"

definition sendIpcEvent :: "string \<Rightarrow> string option \<Rightarrow> world \<Rightarrow> world" where
  "sendIpcEvent eventType data w =
     (case ipcSocket w of
        None \<Rightarrow> client_log (LogNoIpcSocket eventType data) w
      | Some sock \<Rightarrow>
          (client_log (LogSendingIpcEvent eventType data) w)
            \<lparr>written := written w @ [(sock, eventType, data)]\<rparr>)"

definition handleResourceRestart :: "string \<Rightarrow> world \<Rightarrow> world" where
  "handleResourceRestart resourceName w =
     sendIpcEvent ''restart'' (Some resourceName)
       (client_log (LogRestartingResource resourceName) w)"

text \<open>
  The body of \<open>Promise.all\<close> in \<open>linkResources\<close>: each link is tried in the order of the
  list, and a failure is caught and logged.
\<close>

fun symlinkAll :: "(string \<times> string) list \<Rightarrow> world \<Rightarrow> world" where
  "symlinkAll [] w = w"
| "symlinkAll ((source, dest) # links) w =
     symlinkAll links
       (case sys (Symlink source dest) w of
          (Some e, w') \<Rightarrow> client_log (LogFailedToLinkResource (error_toString e)) w'
        | (None, w') \<Rightarrow> w')"

definition resourceLinks :: "paths \<Rightarrow> string \<Rightarrow> string list \<Rightarrow> (string \<times> string) list" where
  "resourceLinks P resourcesDirectoryPath paths =
     (sdkGame P, path_join resourcesDirectoryPath ''sdk-game'') #
     map (\<lambda>resourcePath.
            (resourcePath, path_join resourcesDirectoryPath (path_basename resourcePath)))
         paths"

definition linkResources :: "paths \<Rightarrow> string \<Rightarrow> string list \<Rightarrow> world \<Rightarrow> result \<times> world" where
  "linkResources P fxserverCwd paths w =
     (let resourcesDirectoryPath = path_join fxserverCwd ''resources'' in
      case sys (Rimraf resourcesDirectoryPath) w of
        (Some e, w1) \<Rightarrow> (Rejected e, w1)
      | (None, w1) \<Rightarrow>
          (case sys (Mkdirp resourcesDirectoryPath) w1 of
             (Some e, w2) \<Rightarrow> (Rejected e, w2)
           | (None, w2) \<Rightarrow>
               (Resolved,
                sendIpcEvent ''refresh'' None
                  (symlinkAll (resourceLinks P resourcesDirectoryPath paths) w2))))"

definition handleRelinkResources :: "paths \<Rightarrow> RelinkResourcesRequest \<Rightarrow> world \<Rightarrow> result \<times> world" where
  "handleRelinkResources P request w =
     (if state w \<noteq> Up then (Resolved, w)
      else
        let fxserverCwd = getProjectServerPath (relinkProjectPath request);
            resourcesToRestart =
              (case restartResourcesWithPath request of
                 None \<Rightarrow> []
               | Some p \<Rightarrow>
                   if p = [] then []
                   else map path_basename
                          (filter (\<lambda>resourcePath. startsWith resourcePath p)
                             (currentEnabledResourcesPaths w)))
        in case linkResources P fxserverCwd (resourcesPaths request) w of
             (Rejected e, w1) \<Rightarrow> (Rejected e, w1)
           | (Resolved, w1) \<Rightarrow>
               (Resolved,
                fold (\<lambda>resourceName. sendIpcEvent ''restart'' (Some resourceName))
                  resourcesToRestart w1))"

definition refreshResources :: "paths \<Rightarrow> ServerRefreshResourcesRequest \<Rightarrow> world \<Rightarrow> result \<times> world" where
  "refreshResources P request w =
     (let fxserverCwd = getProjectServerPath (projectPath request) in
      case sys (Mkdirp fxserverCwd) w of
        (Some e, w1) \<Rightarrow> (Rejected e, w1)
      | (None, w1) \<Rightarrow>
          (case linkResources P fxserverCwd (enabledResourcesPaths request) w1 of
             (Rejected e, w2) \<Rightarrow> (Rejected e, w2)
           | (Resolved, w2) \<Rightarrow> (Resolved, sendIpcEvent ''refresh'' None w2)))"

text \<open>\<open>setupIpc\<close>: a new endpoint with its own, empty \<open>disposableHandlers\<close>.\<close>

definition setupIpc :: "world \<Rightarrow> world" where
  "setupIpc w =
     w\<lparr>ipcServer := Some (nextId w),
       endpoints := (endpoints w)(nextId w \<mapsto> \<lparr>listening = True, disposableHandlers = []\<rparr>),
       nextId := Suc (nextId w)\<rparr>"

definition fxserverArgs :: "string list \<Rightarrow> string list" where
  "fxserverArgs paths =
     foldl (\<lambda>args resourcePath. args @ [''+ensure'', path_basename resourcePath])
       [''+exec'', ''blank'',
        ''+endpoint_add_tcp'', ''127.0.0.1:30120'',
        ''+endpoint_add_udp'', ''127.0.0.1:30120'',
        ''+set'', ''onesync'', ''on'',
        ''+set'', ''sv_maxclients'', ''64'',
        ''+set'', ''sv_lan'', ''1'',
        ''+add_ace'', ''resource.sdk-game'', ''command'', ''allow'',
        ''+ensure'', ''sdk-game'']
       paths"

text \<open>What \<open>cp.execFile\<close> hands back: a process with its output stream, or not.\<close>

datatype spawned = Spawned | NoProcess | NoStdout

definition start :: "paths \<Rightarrow> ServerStartRequest \<Rightarrow> spawned \<Rightarrow> world \<Rightarrow> result \<times> world" where
  "start P request sp w =
     (let w1 = client_log (LogStartingServer (projectPath request) (enabledResourcesPaths request)) w;
          w2 = client_emit EmitClearOutput w1;
          w3 = toState Booting w2;
          fxserverCwd = getProjectServerPath (projectPath request)
      in case sys (Mkdirp fxserverCwd) w3 of
           (Some e, w4) \<Rightarrow> (Rejected e, w4)
         | (None, w4) \<Rightarrow>
             (case linkResources P fxserverCwd (enabledResourcesPaths request) w4 of
                (Rejected e, w5) \<Rightarrow> (Rejected e, w5)
              | (Resolved, w5) \<Rightarrow>
                  let fxserverPath =
                        path_join (path_join (serverContainer P) latestVersion) ''FXServer.exe'';
                      w6 = w5\<lparr>execs := execs w5 @
                              [(fxserverPath, fxserverArgs (enabledResourcesPaths request), fxserverCwd)]\<rparr>
                  in if sp \<noteq> Spawned then (Resolved, client_log LogServerFailedToStart w6)
                     else
                       let pid = nextId w6;
                           w7 = setupIpc (w6\<lparr>nextId := Suc pid\<rparr>);
                           w8 = w7\<lparr>children := children w7 @ [pid]\<rparr>
                       in (Resolved,
                           w8\<lparr>server := Some pid,
                              currentEnabledResourcesPaths := enabledResourcesPaths request\<rparr>)))"

subsection \<open>Callbacks\<close>

text \<open>The \<open>exit\<close> callback that \<open>start\<close> installs on the child process.\<close>

definition closeEndpoint :: "nat \<Rightarrow> world \<Rightarrow> world" where
  "closeEndpoint srv w =
     (case endpoints w srv of
        None \<Rightarrow> w
      | Some ep \<Rightarrow> w\<lparr>endpoints := (endpoints w)(srv \<mapsto> ep\<lparr>listening := False\<rparr>)\<rparr>)"

definition serverOnExit :: "world \<Rightarrow> world" where
  "serverOnExit w =
     (let w1 = (case ipcServer w of None \<Rightarrow> w | Some srv \<Rightarrow> closeEndpoint srv w)
      in toState Down (w1\<lparr>server := None\<rparr>))"

definition serverOnStdout :: "string \<Rightarrow> world \<Rightarrow> world" where
  "serverOnStdout data w = client_emit (EmitOutput data) (client_log (LogServerOutput data) w)"

text \<open>
  Modelled from the spec: \<open>on\<close> of the \<open>ApiClient\<close> and the disposer it returns, as
  \<open>setupIpc\<close> uses them (the spec's subscription token returned by each registration
  call). The handler is registered under a fresh number, and disposing removes that
  registration. The connection that registers (its socket and endpoint) is noted in
  \<open>registeredBy\<close>, which nothing reads.
\<close>

definition client_on :: "forwarded \<Rightarrow> nat \<times> nat \<Rightarrow> world \<Rightarrow> nat \<times> world" where
  "client_on ev connection w =
     (nextId w,
      w\<lparr>registered := registered w @ [(nextId w, ev)],
        registeredBy := registeredBy w @ [(nextId w, connection)],
        nextId := Suc (nextId w)\<rparr>)"

definition dispose :: "nat \<Rightarrow> world \<Rightarrow> world" where
  "dispose h w = w\<lparr>registered := filter (\<lambda>r. fst r \<noteq> h) (registered w)\<rparr>"

text \<open>The \<open>connection\<close> callback of the endpoint \<open>srv\<close>, for the new socket \<open>sock\<close>.\<close>

definition ipcServerOnConnection :: "nat \<Rightarrow> nat \<Rightarrow> world \<Rightarrow> world" where
  "ipcServerOnConnection srv sock w =
     (let w1 = client_log LogIpcConnection (w\<lparr>ipcSocket := Some sock\<rparr>);
          (h1, w2) = client_on AckResourcesState (sock, srv) w1;
          (h2, w3) = client_on RestartResource (sock, srv) w2;
          (h3, w4) = client_on StopResource (sock, srv) w3;
          (h4, w5) = client_on StartResource (sock, srv) w4
      in case endpoints w5 srv of
           None \<Rightarrow> w5
         | Some ep \<Rightarrow>
             w5\<lparr>endpoints := (endpoints w5)
                  (srv \<mapsto> ep\<lparr>disposableHandlers := disposableHandlers ep @ [h1, h2, h3, h4]\<rparr>)\<rparr>)"

text \<open>
  The destructuring \<open>const [type, data] = ...\<close>: an array gives its first two elements
  (\<open>undefined\<close>, here \<open>None\<close>, where it is shorter), a string its first two characters,
  and any other value is not iterable, which throws.
\<close>

fun element :: "'a list \<Rightarrow> nat \<Rightarrow> 'a option" where
  "element [] n = None"
| "element (x # xs) 0 = Some x"
| "element (x # xs) (Suc n) = element xs n"

fun destructure :: "json \<Rightarrow> (json option \<times> json option) option" where
  "destructure (JArr xs) = Some (element xs 0, element xs 1)"
| "destructure (JStr s) =
     Some (map_option (\<lambda>c. JStr [c]) (element s 0), map_option (\<lambda>c. JStr [c]) (element s 1))"
| "destructure _ = None"

text \<open>
  The \<open>data\<close> callback of a connection's line stream. \<open>parsed\<close> is what \<open>JSON.parse\<close>
  makes of the line \<open>msg\<close>: \<open>None\<close> when it throws.
\<close>

definition lineStreamOnData :: "string \<Rightarrow> json option \<Rightarrow> world \<Rightarrow> world" where
  "lineStreamOnData msg parsed w =
     (case parsed of
        None \<Rightarrow> client_log (LogErrorParsingMessage msg) w
      | Some v \<Rightarrow>
          (case destructure v of
             None \<Rightarrow> client_log (LogErrorParsingMessage msg) w
           | Some (type, data) \<Rightarrow>
               if type = Some (JStr ''state'') then client_emit (EmitResourcesState data) w
               else if type = Some (JStr ''ready'') then toState Up w
               else w))"

text \<open>The \<open>close\<close> callback of the endpoint \<open>srv\<close>.\<close>

definition ipcServerOnClose :: "nat \<Rightarrow> world \<Rightarrow> world" where
  "ipcServerOnClose srv w =
     (case endpoints w srv of
        None \<Rightarrow> w
      | Some ep \<Rightarrow>
          let w1 = w\<lparr>ipcServer := None, ipcSocket := None\<rparr>;
              disposeHandlersCopy = disposableHandlers ep;
              w2 = w1\<lparr>endpoints := (endpoints w1)(srv \<mapsto> ep\<lparr>disposableHandlers := []\<rparr>)\<rparr>
          in fold dispose disposeHandlersCopy w2)"

text \<open>
  The forwarding handlers of a connection; each sends on whatever socket
  \<open>this.ipcSocket\<close> is when it runs.
\<close>

fun forward :: "forwarded \<Rightarrow> string option \<Rightarrow> world \<Rightarrow> world" where
  "forward AckResourcesState arg w = sendIpcEvent ''state'' None w"
| "forward RestartResource arg w = sendIpcEvent ''restart'' arg w"
| "forward StopResource arg w = sendIpcEvent ''stop'' arg w"
| "forward StartResource arg w = sendIpcEvent ''start'' arg w"

text \<open>
  Modelled from the spec: the dispatch of the \<open>ApiClient\<close>. The bus delivers an event to
  every handler registered for it, in the order of registration.
\<close>

fun deliver :: "(nat \<times> forwarded) list \<Rightarrow> forwarded \<Rightarrow> string option \<Rightarrow> world \<Rightarrow> world" where
  "deliver [] ev arg w = w"
| "deliver ((h, ev') # rs) ev arg w =
     deliver rs ev arg
       (if ev' = ev then forward ev arg (w\<lparr>invoked := invoked w @ [h]\<rparr>) else w)"

subsection \<open>Events\<close>

text \<open>
  Everything that can happen to the supervisor: a command on the bus, a system event,
  the supervisor's own exit, and what the platform reports about the child process,
  the endpoint and its sockets. A \<open>start\<close> command carries what \<open>execFile\<close> will
  return, a line of a socket what \<open>JSON.parse\<close> makes of it.
\<close>

datatype event =
    ClientAckState
  | ClientStart ServerStartRequest spawned
  | ClientStop
  | ClientRestartResource string
  | ClientRefreshResources ServerRefreshResourcesRequest
  | ClientAckResourcesState
  | ClientStopResource string
  | ClientStartResource string
  | SystemRelinkResources RelinkResourcesRequest
  | SystemRestartResource string
  | ProcessExit
  | ServerStdout nat string
  | ServerExit nat
  | IpcConnection nat
  | IpcData nat string "json option"
  | IpcSocketEnd nat
  | IpcServerClose nat

text \<open>
  The platform calls a callback only where it is installed: those of a child process
  while it runs, \<open>connection\<close> while the endpoint listens, \<open>data\<close> while the socket is
  open, and \<open>close\<close> once the endpoint was closed and its sockets have ended.
\<close>

fun step :: "paths \<Rightarrow> event \<Rightarrow> world \<Rightarrow> world" where
  "step P ClientAckState w = ackState w"
| "step P (ClientStart request sp) w = snd (start P request sp w)"
| "step P ClientStop w = stop w"
| "step P (ClientRestartResource resourceName) w =
     deliver (registered w) RestartResource (Some resourceName)
       (handleResourceRestart resourceName w)"
| "step P (ClientRefreshResources request) w = snd (refreshResources P request w)"
| "step P ClientAckResourcesState w = deliver (registered w) AckResourcesState None w"
| "step P (ClientStopResource resourceName) w =
     deliver (registered w) StopResource (Some resourceName) w"
| "step P (ClientStartResource resourceName) w =
     deliver (registered w) StartResource (Some resourceName) w"
| "step P (SystemRelinkResources request) w = snd (handleRelinkResources P request w)"
| "step P (SystemRestartResource resourceName) w = handleResourceRestart resourceName w"
| "step P ProcessExit w = stop w"
| "step P (ServerStdout pid data) w =
     (if pid \<in> set (children w) then serverOnStdout data w else w)"
| "step P (ServerExit pid) w =
     (if pid \<in> set (children w)
      then serverOnExit (w\<lparr>children := removeAll pid (children w)\<rparr>)
      else w)"
| "step P (IpcConnection srv) w =
     (case endpoints w srv of
        None \<Rightarrow> w
      | Some ep \<Rightarrow>
          if listening ep
          then ipcServerOnConnection srv (nextId w)
                 (w\<lparr>sockets := sockets w @ [(nextId w, srv)], nextId := Suc (nextId w)\<rparr>)
          else w)"
| "step P (IpcData sock msg parsed) w =
     (if sock \<in> fst ` set (sockets w) then lineStreamOnData msg parsed w else w)"
| "step P (IpcSocketEnd sock) w = w\<lparr>sockets := filter (\<lambda>c. fst c \<noteq> sock) (sockets w)\<rparr>"
| "step P (IpcServerClose srv) w =
     (case endpoints w srv of
        None \<Rightarrow> w
      | Some ep \<Rightarrow>
          if \<not> listening ep \<and> srv \<notin> snd ` set (sockets w)
          then (ipcServerOnClose srv w)\<lparr>endpoints := (endpoints (ipcServerOnClose srv w))(srv := None)\<rparr>
          else w)"

fun run :: "paths \<Rightarrow> event list \<Rightarrow> world \<Rightarrow> world" where
  "run P [] w = w"
| "run P (e # es) w = run P es (step P e w)"

text \<open>The values of \<open>state\<close> along a run: before the first event and after each one.\<close>

fun states :: "paths \<Rightarrow> event list \<Rightarrow> world \<Rightarrow> ServerStates list" where
  "states P [] w = [state w]"
| "states P (e # es) w = state w # states P es (step P e w)"

subsection \<open>Notions for stating the properties\<close>

text \<open>
  A \<open>start\<close> command; an event that delivers a \<open>ready\<close> message (a line of an open
  socket that parses to an array beginning with \<open>ready\<close>); and whether some event of
  a run does.
\<close>

definition is_start :: "event \<Rightarrow> bool" where
  "is_start e = (case e of ClientStart request sp \<Rightarrow> True | _ \<Rightarrow> False)"

definition delivers_ready :: "event \<Rightarrow> world \<Rightarrow> bool" where
  "delivers_ready e w =
     (case e of
        IpcData sock msg (Some (JArr (t # payload))) \<Rightarrow>
          t = JStr ''ready'' \<and> sock \<in> fst ` set (sockets w)
      | _ \<Rightarrow> False)"

fun ready_arrives :: "paths \<Rightarrow> event list \<Rightarrow> world \<Rightarrow> bool" where
  "ready_arrives P [] w = False"
| "ready_arrives P (e # es) w = (delivers_ready e w \<or> ready_arrives P es (step P e w))"

text \<open>
  The errors of a list of links, in order, each link being tried on the filesystem as
  the links before it left it.
\<close>

fun linkFailures :: "(string \<times> string) list \<Rightarrow> filesystem \<Rightarrow> fs_error list" where
  "linkFailures [] f = []"
| "linkFailures ((source, dest) # links) f =
     (case fs_exec (Symlink source dest) f of
        Inl e \<Rightarrow> e # linkFailures links f
      | Inr f' \<Rightarrow> linkFailures links f')"

text \<open>
  The bookkeeping of the handlers is in order: every endpoint has a number already
  given out, and so has every handler that a connection registered; and a handler that
  a connection of an endpoint registered is, for as long as it is on the bus, among
  the \<open>disposableHandlers\<close> of that endpoint.
\<close>

definition handlers_tracked :: "world \<Rightarrow> bool" where
  "handlers_tracked w \<longleftrightarrow>
     (\<forall>srv ep. endpoints w srv = Some ep \<longrightarrow> srv < nextId w) \<and>
     (\<forall>h sock srv. (h, sock, srv) \<in> set (registeredBy w) \<longrightarrow>
        h < nextId w \<and>
        (h \<in> fst ` set (registered w) \<longrightarrow>
           (\<exists>ep. endpoints w srv = Some ep \<and> h \<in> set (disposableHandlers ep))))"

subsection \<open>Concrete inputs\<close>

text \<open>An empty filesystem that refuses nothing, and a project with two resources.\<close>

definition emptyFs :: filesystem where
  "emptyFs = \<lparr>entries = Map.empty, denied = (\<lambda>c. False)\<rparr>"

text \<open>The same, except that the operating system refuses one call.\<close>

definition refusingFs :: "fs_call \<Rightarrow> filesystem" where
  "refusingFs c = \<lparr>entries = Map.empty, denied = (\<lambda>x. x = c)\<rparr>"

definition examplePaths :: paths where
  "examplePaths = \<lparr>sdkGame = ''/sdk/sdk-game'', serverContainer = ''/sdk/server''\<rparr>"

definition exampleRequest :: ServerStartRequest where
  "exampleRequest = \<lparr>projectPath = ''/p'', enabledResourcesPaths = [''/p/res/a'', ''/p/res/b'']\<rparr>"

text \<open>
  A run of the supervisor: the server was started for the example project and the bridge
  resource has connected; then it reports ready. \<open>readyLine\<close> is the line
  \<open>["ready",null]\<close> and \<open>readyOnlyLine\<close> the line \<open>["ready"]\<close>.
\<close>

definition bootingWorld :: world where
  "bootingWorld = run examplePaths [ClientStart exampleRequest Spawned, IpcConnection 1] (init emptyFs)"

definition readyOnlyLine :: string where
  "readyOnlyLine = ''['' @ [CHR 0x22] @ ''ready'' @ [CHR 0x22] @ '']''"

definition readyLine :: string where
  "readyLine = ''['' @ [CHR 0x22] @ ''ready'' @ [CHR 0x22] @ '',null]''"

definition upWorld :: world where
  "upWorld = step examplePaths (IpcData 2 readyLine (Some (JArr [JStr ''ready'', JNull]))) bootingWorld"

text \<open>Requests for the example project.\<close>

definition relinkEmptyPrefix :: RelinkResourcesRequest where
  "relinkEmptyPrefix = \<lparr>relinkProjectPath = ''/p'', resourcesPaths = [''/p/res/a'', ''/p/res/b''],
     restartResourcesWithPath = Some []\<rparr>"

definition relinkA :: RelinkResourcesRequest where
  "relinkA = \<lparr>relinkProjectPath = ''/p'', resourcesPaths = [''/p/res/a'', ''/p/res/b''],
     restartResourcesWithPath = Some ''/p/res/a''\<rparr>"

definition refreshRequest :: ServerRefreshResourcesRequest where
  "refreshRequest = \<lparr>projectPath = ''/p'',
     enabledResourcesPaths = [''/p/res/a'', ''/p/res/b'', ''/p/res/c'']\<rparr>"

text \<open>
  Continuations of that run. The bridge's socket ends and the bridge connects again.
  From there, either a resource is restarted from the bus; or the server process exits
  and the second socket ends, so that the endpoint can close.
\<close>

definition secondConnectionWorld :: world where
  "secondConnectionWorld = run examplePaths [IpcSocketEnd 2, IpcConnection 1] bootingWorld"

definition reconnectedWorld :: world where
  "reconnectedWorld =
     run examplePaths [IpcSocketEnd 2, IpcConnection 1, ClientRestartResource ''a''] bootingWorld"

definition closingWorld :: world where
  "closingWorld =
     run examplePaths [IpcSocketEnd 2, IpcConnection 1, ServerExit 0, IpcSocketEnd 7] bootingWorld"

section \<open>Properties\<close>

subsection \<open>What the bus, the filesystem calls and the linking leave alone\<close>

lemma cleared_simps [simp]:
  "denied (cleared d f) = denied f"
  "entries (cleared d f) p = (if under d p then None else entries f p)"
  by (simp_all add: cleared_def)

lemma cleared_refusingFs: "cleared d (refusingFs c) = refusingFs c"
  by (simp add: cleared_def refusingFs_def cong: if_cong)

lemma cleared_emptyFs: "cleared d emptyFs = emptyFs"
  by (simp add: cleared_def emptyFs_def cong: if_cong)

lemma client_log_frame [simp]:
  "state (client_log l w) = state w"
  "ipcServer (client_log l w) = ipcServer w"
  "ipcSocket (client_log l w) = ipcSocket w"
  "server (client_log l w) = server w"
  "currentEnabledResourcesPaths (client_log l w) = currentEnabledResourcesPaths w"
  "clientLog (client_log l w) = clientLog w @ [l]"
  "emitted (client_log l w) = emitted w"
  "registered (client_log l w) = registered w"
  "invoked (client_log l w) = invoked w"
  "registeredBy (client_log l w) = registeredBy w"
  "fs (client_log l w) = fs w"
  "syscalls (client_log l w) = syscalls w"
  "endpoints (client_log l w) = endpoints w"
  "sockets (client_log l w) = sockets w"
  "written (client_log l w) = written w"
  "children (client_log l w) = children w"
  "killed (client_log l w) = killed w"
  "execs (client_log l w) = execs w"
  "nextId (client_log l w) = nextId w"
  by (simp_all add: client_log_def)

lemma client_emit_frame [simp]:
  "state (client_emit e w) = state w"
  "ipcServer (client_emit e w) = ipcServer w"
  "ipcSocket (client_emit e w) = ipcSocket w"
  "server (client_emit e w) = server w"
  "currentEnabledResourcesPaths (client_emit e w) = currentEnabledResourcesPaths w"
  "clientLog (client_emit e w) = clientLog w"
  "emitted (client_emit e w) = emitted w @ [e]"
  "registered (client_emit e w) = registered w"
  "invoked (client_emit e w) = invoked w"
  "registeredBy (client_emit e w) = registeredBy w"
  "fs (client_emit e w) = fs w"
  "syscalls (client_emit e w) = syscalls w"
  "endpoints (client_emit e w) = endpoints w"
  "sockets (client_emit e w) = sockets w"
  "written (client_emit e w) = written w"
  "children (client_emit e w) = children w"
  "killed (client_emit e w) = killed w"
  "execs (client_emit e w) = execs w"
  "nextId (client_emit e w) = nextId w"
  by (simp_all add: client_emit_def)

lemma sys_frame [simp]:
  "state (snd (sys c w)) = state w"
  "ipcServer (snd (sys c w)) = ipcServer w"
  "ipcSocket (snd (sys c w)) = ipcSocket w"
  "server (snd (sys c w)) = server w"
  "currentEnabledResourcesPaths (snd (sys c w)) = currentEnabledResourcesPaths w"
  "clientLog (snd (sys c w)) = clientLog w"
  "emitted (snd (sys c w)) = emitted w"
  "registered (snd (sys c w)) = registered w"
  "invoked (snd (sys c w)) = invoked w"
  "registeredBy (snd (sys c w)) = registeredBy w"
  "syscalls (snd (sys c w)) = syscalls w @ [c]"
  "endpoints (snd (sys c w)) = endpoints w"
  "sockets (snd (sys c w)) = sockets w"
  "written (snd (sys c w)) = written w"
  "children (snd (sys c w)) = children w"
  "killed (snd (sys c w)) = killed w"
  "execs (snd (sys c w)) = execs w"
  "nextId (snd (sys c w)) = nextId w"
  by (simp_all add: sys_def split: sum.splits)

lemma sendIpcEvent_frame [simp]:
  "state (sendIpcEvent t d w) = state w"
  "ipcServer (sendIpcEvent t d w) = ipcServer w"
  "ipcSocket (sendIpcEvent t d w) = ipcSocket w"
  "server (sendIpcEvent t d w) = server w"
  "currentEnabledResourcesPaths (sendIpcEvent t d w) = currentEnabledResourcesPaths w"
  "emitted (sendIpcEvent t d w) = emitted w"
  "registered (sendIpcEvent t d w) = registered w"
  "invoked (sendIpcEvent t d w) = invoked w"
  "registeredBy (sendIpcEvent t d w) = registeredBy w"
  "fs (sendIpcEvent t d w) = fs w"
  "syscalls (sendIpcEvent t d w) = syscalls w"
  "endpoints (sendIpcEvent t d w) = endpoints w"
  "sockets (sendIpcEvent t d w) = sockets w"
  "children (sendIpcEvent t d w) = children w"
  "killed (sendIpcEvent t d w) = killed w"
  "execs (sendIpcEvent t d w) = execs w"
  "nextId (sendIpcEvent t d w) = nextId w"
  by (simp_all add: sendIpcEvent_def split: option.splits)

lemma sendIpcEvent_written:
  "written (sendIpcEvent t d w) =
     written w @ (case ipcSocket w of None \<Rightarrow> [] | Some sock \<Rightarrow> [(sock, t, d)])"
  by (simp add: sendIpcEvent_def split: option.splits)

lemma symlinkAll_frame [simp]:
  "state (symlinkAll ls w) = state w"
  "ipcServer (symlinkAll ls w) = ipcServer w"
  "ipcSocket (symlinkAll ls w) = ipcSocket w"
  "server (symlinkAll ls w) = server w"
  "currentEnabledResourcesPaths (symlinkAll ls w) = currentEnabledResourcesPaths w"
  "emitted (symlinkAll ls w) = emitted w"
  "registered (symlinkAll ls w) = registered w"
  "invoked (symlinkAll ls w) = invoked w"
  "registeredBy (symlinkAll ls w) = registeredBy w"
  "endpoints (symlinkAll ls w) = endpoints w"
  "sockets (symlinkAll ls w) = sockets w"
  "written (symlinkAll ls w) = written w"
  "children (symlinkAll ls w) = children w"
  "killed (symlinkAll ls w) = killed w"
  "execs (symlinkAll ls w) = execs w"
  "nextId (symlinkAll ls w) = nextId w"
  by (induction ls w rule: symlinkAll.induct; simp add: sys_def split: sum.splits)+

lemma linkResources_frame [simp]:
  "state (snd (linkResources P d ps w)) = state w"
  "ipcServer (snd (linkResources P d ps w)) = ipcServer w"
  "ipcSocket (snd (linkResources P d ps w)) = ipcSocket w"
  "server (snd (linkResources P d ps w)) = server w"
  "currentEnabledResourcesPaths (snd (linkResources P d ps w)) = currentEnabledResourcesPaths w"
  "emitted (snd (linkResources P d ps w)) = emitted w"
  "registered (snd (linkResources P d ps w)) = registered w"
  "invoked (snd (linkResources P d ps w)) = invoked w"
  "registeredBy (snd (linkResources P d ps w)) = registeredBy w"
  "endpoints (snd (linkResources P d ps w)) = endpoints w"
  "sockets (snd (linkResources P d ps w)) = sockets w"
  "children (snd (linkResources P d ps w)) = children w"
  "killed (snd (linkResources P d ps w)) = killed w"
  "execs (snd (linkResources P d ps w)) = execs w"
  "nextId (snd (linkResources P d ps w)) = nextId w"
  by (simp_all add: linkResources_def Let_def sys_def split: sum.splits)


subsection \<open>Sending without a peer\<close>

text \<open>
  C7. Whatever the event type and payload, \<open>sendIpcEvent\<close> with no peer socket only adds
  the line \<open>No ipcSocket\<close> to the log: nothing is written, and the call returns (the
  embedding of \<open>sendIpcEvent\<close> has no failing branch, as the method has no statement
  that throws before or in this branch).
\<close>

theorem sendIpcEvent_no_peer:
  "ipcSocket w = None \<Longrightarrow>
     sendIpcEvent eventType data w
       = w\<lparr>clientLog := clientLog w @ [LogNoIpcSocket eventType data]\<rparr> \<and>
     written (sendIpcEvent eventType data w) = written w"
  by (simp add: sendIpcEvent_def client_log_def)

theorem sendIpcEvent_no_peer_witness:
  "ipcSocket (init emptyFs) = None \<and>
   clientLog (sendIpcEvent ''restart'' (Some ''a'') (init emptyFs))
     = [LogNoIpcSocket ''restart'' (Some ''a'')] \<and>
   written (sendIpcEvent ''restart'' (Some ''a'') (init emptyFs)) = []"
proof -
  have h: "ipcSocket (init emptyFs) = None" by (simp add: init_def)
  show ?thesis
    using h sendIpcEvent_no_peer [OF h, of "''restart''" "Some ''a''"]
    by (simp add: init_def)
qed

subsection \<open>The launch arguments\<close>

lemma fxserverArgs_foldl:
  "foldl (\<lambda>args resourcePath. args @ [''+ensure'', path_basename resourcePath]) base ps
     = base @ concat (map (\<lambda>p. [''+ensure'', path_basename p]) ps)"
  by (induction ps arbitrary: base) simp_all

text \<open>
  C8. Whenever \<open>start\<close> gets as far as launching (it resolves), the one \<open>execFile\<close> call
  it makes has the fixed base list as arguments, whose last pair ensures the bridge
  resource \<open>sdk-game\<close>, followed by one pair \<open>+ensure\<close>, basename for each enabled
  resource, in the order of the request.
\<close>

theorem start_launch_arguments:
  "start P request sp w = (Resolved, w') \<Longrightarrow>
     execs w' = execs w @
       [(path_join (path_join (serverContainer P) latestVersion) ''FXServer.exe'',
         [''+exec'', ''blank'',
          ''+endpoint_add_tcp'', ''127.0.0.1:30120'',
          ''+endpoint_add_udp'', ''127.0.0.1:30120'',
          ''+set'', ''onesync'', ''on'',
          ''+set'', ''sv_maxclients'', ''64'',
          ''+set'', ''sv_lan'', ''1'',
          ''+add_ace'', ''resource.sdk-game'', ''command'', ''allow'',
          ''+ensure'', ''sdk-game'']
         @ concat (map (\<lambda>resourcePath. [''+ensure'', path_basename resourcePath])
                     (enabledResourcesPaths request)),
         getProjectServerPath (projectPath request))]"
  by (auto simp: start_def Let_def case_prod_beta toState_def ackState_def setupIpc_def
        fxserverArgs_def fxserverArgs_foldl
        split: option.splits result.splits if_splits)

theorem start_launch_arguments_witness:
  "fst (start examplePaths exampleRequest Spawned (init emptyFs)) = Resolved \<and>
   execs (snd (start examplePaths exampleRequest Spawned (init emptyFs))) =
     [(''/sdk/server/2972/FXServer.exe'',
       [''+exec'', ''blank'',
        ''+endpoint_add_tcp'', ''127.0.0.1:30120'',
        ''+endpoint_add_udp'', ''127.0.0.1:30120'',
        ''+set'', ''onesync'', ''on'',
        ''+set'', ''sv_maxclients'', ''64'',
        ''+set'', ''sv_lan'', ''1'',
        ''+add_ace'', ''resource.sdk-game'', ''command'', ''allow'',
        ''+ensure'', ''sdk-game'', ''+ensure'', ''a'', ''+ensure'', ''b''],
       ''/p/.fxserver'')]"
proof -
  have h: "start examplePaths exampleRequest Spawned (init emptyFs)
     = (Resolved, snd (start examplePaths exampleRequest Spawned (init emptyFs)))"
    by (simp add: start_def Let_def case_prod_beta sys_def linkResources_def emptyFs_def
        init_def exampleRequest_def getProjectServerPath_def path_join_def under_def
        toState_def ackState_def client_emit_def client_log_def)
  have "fst (start examplePaths exampleRequest Spawned (init emptyFs)) = Resolved"
    using h by (metis fst_conv)
  moreover have "execs (init emptyFs) = []" by (simp add: init_def)
  ultimately show ?thesis
    using start_launch_arguments [OF h]
    by (simp add: exampleRequest_def examplePaths_def latestVersion_def path_join_def
          path_basename_def getProjectServerPath_def)
qed

subsection \<open>Inbound lines\<close>

text \<open>
  C10. A line that parses to an array whose first element is \<open>ready\<close> (so in particular
  the pair \<open>["ready", payload]\<close>) sets the state to \<open>Up\<close> and emits one state event,
  whatever the state was: the callback does not read it.
\<close>

theorem ready_sets_up:
  "state (lineStreamOnData msg (Some (JArr (JStr ''ready'' # payload))) w) = Up \<and>
   emitted (lineStreamOnData msg (Some (JArr (JStr ''ready'' # payload))) w)
     = emitted w @ [EmitState Up]"
  by (simp add: lineStreamOnData_def toState_def ackState_def)

subsection \<open>Linking\<close>

lemma fs_exec_denied: "fs_exec c f = Inr f' \<Longrightarrow> denied f' = denied f"
  by (cases c) (auto split: if_splits option.splits fs_node.splits)

lemma sys_denied [simp]: "denied (fs (snd (sys c w))) = denied (fs w)"
  by (auto simp: sys_def split: sum.splits dest: fs_exec_denied)

lemma symlinkAll_append: "symlinkAll (xs @ ys) w = symlinkAll ys (symlinkAll xs w)"
  by (induction xs w rule: symlinkAll.induct) simp_all

lemma symlinkAll_syscalls:
  "syscalls (symlinkAll ls w) = syscalls w @ map (\<lambda>(s, d). Symlink s d) ls"
  by (induction ls w rule: symlinkAll.induct) (simp_all add: sys_def split: sum.splits)

lemma symlinkAll_denied [simp]: "denied (fs (symlinkAll ls w)) = denied (fs w)"
proof (induction ls w rule: symlinkAll.induct)
  case (2 source dest links w)
  have "denied (fs (snd (sys (Symlink source dest) w))) = denied (fs w)" by simp
  with 2 show ?case by (simp add: case_prod_beta split: option.splits)
qed simp

lemma symlinkAll_log_grows:
  "\<exists>ls'. clientLog (symlinkAll ls w) = clientLog w @ ls'"
proof (induction ls w rule: symlinkAll.induct)
  case (2 source dest links w)
  have "clientLog (snd (sys (Symlink source dest) w)) = clientLog w" by simp
  with 2 show ?case by (auto simp: case_prod_beta split: option.splits)
qed simp

lemma linkResources_rimraf_fails:
  "fs_exec (Rimraf (path_join cwd ''resources'')) (fs w) = Inl e \<Longrightarrow>
     linkResources P cwd ps w
       = (Rejected e, w\<lparr>syscalls := syscalls w @ [Rimraf (path_join cwd ''resources'')]\<rparr>)"
  by (simp add: linkResources_def Let_def sys_def del: fs_exec.simps)

lemma linkResources_mkdirp_fails:
  "fs_exec (Rimraf (path_join cwd ''resources'')) (fs w) = Inr f1 \<Longrightarrow>
   fs_exec (Mkdirp (path_join cwd ''resources'')) f1 = Inl e \<Longrightarrow>
     linkResources P cwd ps w
       = (Rejected e,
          w\<lparr>fs := f1,
            syscalls := syscalls w @ [Rimraf (path_join cwd ''resources''),
                                      Mkdirp (path_join cwd ''resources'')]\<rparr>)"
  by (simp add: linkResources_def Let_def sys_def del: fs_exec.simps)

lemma linkResources_links:
  "fs_exec (Rimraf (path_join cwd ''resources'')) (fs w) = Inr f1 \<Longrightarrow>
   fs_exec (Mkdirp (path_join cwd ''resources'')) f1 = Inr f2 \<Longrightarrow>
     linkResources P cwd ps w
       = (Resolved,
          sendIpcEvent ''refresh'' None
            (symlinkAll (resourceLinks P (path_join cwd ''resources'') ps)
               (w\<lparr>fs := f2,
                  syscalls := syscalls w @ [Rimraf (path_join cwd ''resources''),
                                            Mkdirp (path_join cwd ''resources'')]\<rparr>)))"
  by (simp add: linkResources_def Let_def sys_def del: fs_exec.simps)

lemma sys_fs_only:
  "fs w = fs v \<Longrightarrow>
     fst (sys c w) = fst (sys c v) \<and> fs (snd (sys c w)) = fs (snd (sys c v))"
  by (cases "fs_exec c (fs v)") (simp_all add: sys_def del: fs_exec.simps)

lemma symlinkAll_fs_only:
  "fs w = fs v \<Longrightarrow> fs (symlinkAll ls w) = fs (symlinkAll ls v)"
proof (induction ls arbitrary: w v)
  case Nil
  then show ?case by simp
next
  case (Cons l ls)
  obtain s d where l: "l = (s, d)" by (cases l)
  let ?next = "\<lambda>u. case sys (Symlink s d) u of
          (Some e, w') \<Rightarrow> client_log (LogFailedToLinkResource (error_toString e)) w'
        | (None, w') \<Rightarrow> w'"
  have "fs (?next w) = fs (?next v)"
    using sys_fs_only [OF Cons.prems, of "Symlink s d"]
    by (simp add: case_prod_beta split: option.splits)
  then have "fs (symlinkAll ls (?next w)) = fs (symlinkAll ls (?next v))"
    by (rule Cons.IH)
  then show ?case by (simp add: l)
qed

lemma sendIpcEvent_log_grows:
  "\<exists>ls'. clientLog (sendIpcEvent t d w) = clientLog w @ ls'"
  by (simp add: sendIpcEvent_def split: option.splits)

lemma symlinkAll_log:
  "clientLog (symlinkAll ls w)
     = clientLog w @ map (\<lambda>e. LogFailedToLinkResource (error_toString e)) (linkFailures ls (fs w))"
proof (induction ls arbitrary: w)
  case Nil
  then show ?case by simp
next
  case (Cons l ls)
  obtain s d where l: "l = (s, d)" by (cases l)
  show ?case
  proof (cases "fs_exec (Symlink s d) (fs w)")
    case (Inl e)
    then show ?thesis
      using Cons.IH [of "client_log (LogFailedToLinkResource (error_toString e))
                           (w\<lparr>syscalls := syscalls w @ [Symlink s d]\<rparr>)"]
      by (simp add: l sys_def del: fs_exec.simps)
  next
    case (Inr f')
    then show ?thesis
      using Cons.IH [of "w\<lparr>fs := f', syscalls := syscalls w @ [Symlink s d]\<rparr>"]
      by (simp add: l sys_def del: fs_exec.simps)
  qed
qed

lemma sendIpcEvent_log:
  "clientLog (sendIpcEvent t d w)
     = clientLog w @ [case ipcSocket w of None \<Rightarrow> LogNoIpcSocket t d
                      | Some sock \<Rightarrow> LogSendingIpcEvent t d]"
  by (simp add: sendIpcEvent_def split: option.splits)

text \<open>
  C5. In \<open>linkResources\<close>, when removing the resources directory fails, the call is
  rejected with that error right after the attempt: nothing else was tried. When
  recreating it fails, likewise, after the removal. When both succeed, the call resolves
  whatever the links do: every link is tried, in order, and what the call adds to the
  log is exactly one \<open>Failed to link resource\<close> line for each link that fails, with
  that link's error and in the order of the links, and then the line of the final
  \<open>refresh\<close> directive, which is sent at the end.
\<close>

theorem linkResources_failures:
  "(fs_exec (Rimraf (path_join cwd ''resources'')) (fs w) = Inl e \<longrightarrow>
      linkResources P cwd ps w
        = (Rejected e, w\<lparr>syscalls := syscalls w @ [Rimraf (path_join cwd ''resources'')]\<rparr>)) \<and>
   (fs_exec (Rimraf (path_join cwd ''resources'')) (fs w) = Inr f1 \<and>
    fs_exec (Mkdirp (path_join cwd ''resources'')) f1 = Inl e \<longrightarrow>
      linkResources P cwd ps w
        = (Rejected e,
           w\<lparr>fs := f1,
             syscalls := syscalls w @ [Rimraf (path_join cwd ''resources''),
                                       Mkdirp (path_join cwd ''resources'')]\<rparr>)) \<and>
   (fs_exec (Rimraf (path_join cwd ''resources'')) (fs w) = Inr f1 \<and>
    fs_exec (Mkdirp (path_join cwd ''resources'')) f1 = Inr f2 \<longrightarrow>
      fst (linkResources P cwd ps w) = Resolved \<and>
      syscalls (snd (linkResources P cwd ps w))
        = syscalls w @ [Rimraf (path_join cwd ''resources''), Mkdirp (path_join cwd ''resources'')]
            @ map (\<lambda>(s, d). Symlink s d) (resourceLinks P (path_join cwd ''resources'') ps) \<and>
      clientLog (snd (linkResources P cwd ps w))
        = clientLog w
            @ map (\<lambda>e'. LogFailedToLinkResource (error_toString e'))
                (linkFailures (resourceLinks P (path_join cwd ''resources'') ps) f2)
            @ [case ipcSocket w of None \<Rightarrow> LogNoIpcSocket ''refresh'' None
               | Some sock \<Rightarrow> LogSendingIpcEvent ''refresh'' None] \<and>
      written (snd (linkResources P cwd ps w))
        = written w @ (case ipcSocket w of None \<Rightarrow> [] | Some sock \<Rightarrow> [(sock, ''refresh'', None)]))"
proof (intro conjI impI)
  assume "fs_exec (Rimraf (path_join cwd ''resources'')) (fs w) = Inl e"
  then show "linkResources P cwd ps w
        = (Rejected e, w\<lparr>syscalls := syscalls w @ [Rimraf (path_join cwd ''resources'')]\<rparr>)"
    by (rule linkResources_rimraf_fails)
next
  assume "fs_exec (Rimraf (path_join cwd ''resources'')) (fs w) = Inr f1 \<and>
    fs_exec (Mkdirp (path_join cwd ''resources'')) f1 = Inl e"
  then show "linkResources P cwd ps w
        = (Rejected e,
           w\<lparr>fs := f1,
             syscalls := syscalls w @ [Rimraf (path_join cwd ''resources''),
                                       Mkdirp (path_join cwd ''resources'')]\<rparr>)"
    by (simp add: linkResources_mkdirp_fails)
next
  let ?dir = "path_join cwd ''resources''"
  let ?w2 = "w\<lparr>fs := f2, syscalls := syscalls w @ [Rimraf ?dir, Mkdirp ?dir]\<rparr>"
  let ?ls = "resourceLinks P ?dir ps"
  assume "fs_exec (Rimraf ?dir) (fs w) = Inr f1 \<and> fs_exec (Mkdirp ?dir) f1 = Inr f2"
  then have eq: "linkResources P cwd ps w
      = (Resolved, sendIpcEvent ''refresh'' None (symlinkAll ?ls ?w2))"
    by (simp add: linkResources_links)
  show "fst (linkResources P cwd ps w) = Resolved"
    by (simp add: eq)
  show "syscalls (snd (linkResources P cwd ps w))
      = syscalls w @ [Rimraf ?dir, Mkdirp ?dir] @ map (\<lambda>(s, d). Symlink s d) ?ls"
    by (simp add: eq symlinkAll_syscalls)
  show "written (snd (linkResources P cwd ps w))
      = written w @ (case ipcSocket w of None \<Rightarrow> [] | Some sock \<Rightarrow> [(sock, ''refresh'', None)])"
    by (simp add: eq sendIpcEvent_written)
  show "clientLog (snd (linkResources P cwd ps w))
        = clientLog w
            @ map (\<lambda>e'. LogFailedToLinkResource (error_toString e')) (linkFailures ?ls f2)
            @ [case ipcSocket w of None \<Rightarrow> LogNoIpcSocket ''refresh'' None
               | Some sock \<Rightarrow> LogSendingIpcEvent ''refresh'' None]"
    by (simp add: eq sendIpcEvent_log symlinkAll_log)
qed

theorem linkResources_failures_witness:
  "linkResources examplePaths ''/p/.fxserver'' [''/p/res/a'', ''/p/res/b'', ''/p/old/a'']
      (init (refusingFs (Rimraf ''/p/.fxserver/resources'')))
     = (Rejected (FsError EPERM (Rimraf ''/p/.fxserver/resources'')),
        (init (refusingFs (Rimraf ''/p/.fxserver/resources'')))
          \<lparr>syscalls := [Rimraf ''/p/.fxserver/resources'']\<rparr>) \<and>
   linkResources examplePaths ''/p/.fxserver'' [''/p/res/a'', ''/p/res/b'', ''/p/old/a'']
      (init (refusingFs (Mkdirp ''/p/.fxserver/resources'')))
     = (Rejected (FsError EPERM (Mkdirp ''/p/.fxserver/resources'')),
        (init (refusingFs (Mkdirp ''/p/.fxserver/resources'')))
          \<lparr>syscalls := [Rimraf ''/p/.fxserver/resources'', Mkdirp ''/p/.fxserver/resources'']\<rparr>) \<and>
   fst (linkResources examplePaths ''/p/.fxserver'' [''/p/res/a'', ''/p/res/b'', ''/p/old/a'']
      (init (refusingFs (Symlink ''/p/res/b'' ''/p/.fxserver/resources/b'')))) = Resolved \<and>
   syscalls (snd (linkResources examplePaths ''/p/.fxserver'' [''/p/res/a'', ''/p/res/b'', ''/p/old/a'']
      (init (refusingFs (Symlink ''/p/res/b'' ''/p/.fxserver/resources/b'')))))
     = [Rimraf ''/p/.fxserver/resources'', Mkdirp ''/p/.fxserver/resources'',
        Symlink ''/sdk/sdk-game'' ''/p/.fxserver/resources/sdk-game'',
        Symlink ''/p/res/a'' ''/p/.fxserver/resources/a'',
        Symlink ''/p/res/b'' ''/p/.fxserver/resources/b'',
        Symlink ''/p/old/a'' ''/p/.fxserver/resources/a''] \<and>
   clientLog (snd (linkResources examplePaths ''/p/.fxserver'' [''/p/res/a'', ''/p/res/b'', ''/p/old/a'']
      (init (refusingFs (Symlink ''/p/res/b'' ''/p/.fxserver/resources/b'')))))
     = [LogFailedToLinkResource
          (error_toString (FsError EPERM (Symlink ''/p/res/b'' ''/p/.fxserver/resources/b''))),
        LogFailedToLinkResource
          (error_toString (FsError EEXIST (Symlink ''/p/old/a'' ''/p/.fxserver/resources/a''))),
        LogNoIpcSocket ''refresh'' None]"
proof -
  let ?cwd = "''/p/.fxserver''"
  let ?dir = "''/p/.fxserver/resources''"
  let ?ps = "[''/p/res/a'', ''/p/res/b'', ''/p/old/a'']"
  have dir: "path_join ?cwd ''resources'' = ?dir" by (simp add: path_join_def)
  have links: "resourceLinks examplePaths ?dir ?ps
      = [(''/sdk/sdk-game'', ''/p/.fxserver/resources/sdk-game''),
         (''/p/res/a'', ''/p/.fxserver/resources/a''),
         (''/p/res/b'', ''/p/.fxserver/resources/b''),
         (''/p/old/a'', ''/p/.fxserver/resources/a'')]"
    by (simp add: resourceLinks_def examplePaths_def path_join_def path_basename_def)
  let ?wr = "init (refusingFs (Rimraf ?dir))"
  have "fs_exec (Rimraf (path_join ?cwd ''resources'')) (fs ?wr) = Inl (FsError EPERM (Rimraf ?dir))"
    by (simp add: dir init_def refusingFs_def)
  with linkResources_failures [where cwd = ?cwd and w = ?wr and e = "FsError EPERM (Rimraf ?dir)"
      and P = examplePaths and ps = ?ps]
  have one: "linkResources examplePaths ?cwd ?ps ?wr
      = (Rejected (FsError EPERM (Rimraf ?dir)), ?wr\<lparr>syscalls := [Rimraf ?dir]\<rparr>)"
    by (simp add: dir init_def)
  let ?wm = "init (refusingFs (Mkdirp ?dir))"
  have "fs_exec (Rimraf (path_join ?cwd ''resources'')) (fs ?wm) = Inr (refusingFs (Mkdirp ?dir)) \<and>
        fs_exec (Mkdirp (path_join ?cwd ''resources'')) (refusingFs (Mkdirp ?dir))
          = Inl (FsError EPERM (Mkdirp ?dir))"
    by (simp add: dir init_def cleared_refusingFs) (simp add: refusingFs_def)
  with linkResources_failures [where cwd = ?cwd and w = ?wm and e = "FsError EPERM (Mkdirp ?dir)"
      and P = examplePaths and ps = ?ps and ?f1.0 = "refusingFs (Mkdirp ?dir)"]
  have two: "linkResources examplePaths ?cwd ?ps ?wm
      = (Rejected (FsError EPERM (Mkdirp ?dir)), ?wm\<lparr>syscalls := [Rimraf ?dir, Mkdirp ?dir]\<rparr>)"
    by (simp add: dir init_def)
  let ?c = "Symlink ''/p/res/b'' ''/p/.fxserver/resources/b''"
  let ?ws = "init (refusingFs ?c)"
  let ?f2 = "(refusingFs ?c)\<lparr>entries := [?dir \<mapsto> Dir]\<rparr>"
  have h: "fs_exec (Rimraf (path_join ?cwd ''resources'')) (fs ?ws) = Inr (refusingFs ?c) \<and>
        fs_exec (Mkdirp (path_join ?cwd ''resources'')) (refusingFs ?c) = Inr ?f2"
    by (simp add: dir init_def cleared_refusingFs) (simp add: refusingFs_def)
  have failures: "linkFailures (resourceLinks examplePaths (path_join ?cwd ''resources'') ?ps) ?f2
      = [FsError EPERM ?c, FsError EEXIST (Symlink ''/p/old/a'' ''/p/.fxserver/resources/a'')]"
    by (simp add: dir links refusingFs_def)
  note t = linkResources_failures [where cwd = ?cwd and w = ?ws and P = examplePaths
      and ps = ?ps and ?f1.0 = "refusingFs ?c" and ?f2.0 = ?f2]
  from t h have "fst (linkResources examplePaths ?cwd ?ps ?ws) = Resolved \<and>
      syscalls (snd (linkResources examplePaths ?cwd ?ps ?ws))
        = syscalls ?ws @ [Rimraf (path_join ?cwd ''resources''), Mkdirp (path_join ?cwd ''resources'')]
            @ map (\<lambda>(s, d). Symlink s d) (resourceLinks examplePaths (path_join ?cwd ''resources'') ?ps) \<and>
      clientLog (snd (linkResources examplePaths ?cwd ?ps ?ws))
        = clientLog ?ws
            @ map (\<lambda>e'. LogFailedToLinkResource (error_toString e'))
                (linkFailures (resourceLinks examplePaths (path_join ?cwd ''resources'') ?ps) ?f2)
            @ [case ipcSocket ?ws of None \<Rightarrow> LogNoIpcSocket ''refresh'' None
               | Some sock \<Rightarrow> LogSendingIpcEvent ''refresh'' None]"
    by blast
  then have three: "fst (linkResources examplePaths ?cwd ?ps ?ws) = Resolved \<and>
      syscalls (snd (linkResources examplePaths ?cwd ?ps ?ws))
        = [Rimraf ?dir, Mkdirp ?dir] @ map (\<lambda>(s, d). Symlink s d) (resourceLinks examplePaths ?dir ?ps) \<and>
      clientLog (snd (linkResources examplePaths ?cwd ?ps ?ws))
        = [LogFailedToLinkResource (error_toString (FsError EPERM ?c)),
           LogFailedToLinkResource
             (error_toString (FsError EEXIST (Symlink ''/p/old/a'' ''/p/.fxserver/resources/a''))),
           LogNoIpcSocket ''refresh'' None]"
    by (simp only: failures) (simp add: dir init_def del: error_toString.simps)
  from one two three show ?thesis by (simp add: links del: error_toString.simps)
qed

subsection \<open>Linking twice\<close>

lemma rimraf_result:
  "fs_exec (Rimraf d) f = Inr f1 \<Longrightarrow> f1 = cleared d f \<and> \<not> denied f (Rimraf d)"
  by (auto split: if_splits)

lemma cleared_idem: "cleared d (cleared d f) = cleared d f"
  by (simp add: cleared_def fun_eq_iff)

lemma rimraf_again:
  "fs_exec (Rimraf d) f = Inr f1 \<Longrightarrow> fs_exec (Rimraf d) f1 = Inr f1"
proof -
  assume a: "fs_exec (Rimraf d) f = Inr f1"
  then have f1: "f1 = cleared d f" and ok: "\<not> denied f (Rimraf d)"
    using rimraf_result by blast+
  have "denied (cleared d f) = denied f" by (simp add: cleared_def)
  with ok have "fs_exec (Rimraf d) (cleared d f) = Inr (cleared d (cleared d f))"
    by simp
  then show ?thesis by (simp add: f1 cleared_idem)
qed

lemma mkdirp_result:
  "fs_exec (Mkdirp d) (cleared d f) = Inr f2 \<Longrightarrow>
     f2 = (cleared d f)\<lparr>entries := (entries (cleared d f))(d \<mapsto> Dir)\<rparr>"
  by (auto simp: cleared_def under_def split: if_splits)

lemma symlinkAll_entries:
  "entries (fs (symlinkAll ls w)) p = Some n \<Longrightarrow>
     entries (fs w) p = Some n \<or> (\<exists>l \<in> set ls. p = snd l \<and> n = Link (fst l))"
proof (induction ls arbitrary: w)
  case Nil
  then show ?case by simp
next
  case (Cons l ls)
  obtain s d where l: "l = (s, d)" by (cases l)
  let ?next = "case sys (Symlink s d) w of
          (Some e, w') \<Rightarrow> client_log (LogFailedToLinkResource (error_toString e)) w'
        | (None, w') \<Rightarrow> w'"
  have step: "entries (fs ?next) p = Some n \<Longrightarrow>
      entries (fs w) p = Some n \<or> (p = d \<and> n = Link s)"
    by (auto simp: sys_def split: if_splits option.splits)
  from Cons.prems have "entries (fs (symlinkAll ls ?next)) p = Some n"
    by (simp add: l)
  then have "entries (fs ?next) p = Some n \<or> (\<exists>l \<in> set ls. p = snd l \<and> n = Link (fst l))"
    by (rule Cons.IH)
  with step show ?case by (auto simp: l)
qed

lemma symlinkAll_cleared:
  "\<forall>l \<in> set ls. under d (snd l) \<Longrightarrow> cleared d (fs (symlinkAll ls w)) = cleared d (fs w)"
proof (induction ls arbitrary: w)
  case Nil
  then show ?case by simp
next
  case (Cons l ls)
  obtain s t where l: "l = (s, t)" by (cases l)
  let ?next = "case sys (Symlink s t) w of
          (Some e, w') \<Rightarrow> client_log (LogFailedToLinkResource (error_toString e)) w'
        | (None, w') \<Rightarrow> w'"
  from Cons.prems l have t: "under d t" by simp
  have "cleared d (fs ?next) = cleared d (fs w)"
    using t by (auto simp: sys_def cleared_def fun_eq_iff split: if_splits option.splits)
  moreover have "cleared d (fs (symlinkAll ls ?next)) = cleared d (fs ?next)"
    using Cons.prems by (intro Cons.IH) simp
  ultimately show ?case by (simp add: l)
qed

lemma path_join_under: "a \<noteq> [] \<Longrightarrow> under a (path_join a b)"
  by (simp add: under_def path_join_def)

lemma resources_directory_nonempty: "path_join cwd ''resources'' \<noteq> []"
  by (simp add: path_join_def)

lemma resourceLinks_under:
  "l \<in> set (resourceLinks P (path_join cwd ''resources'') ps) \<Longrightarrow>
     under (path_join cwd ''resources'') (snd l)"
  using path_join_under [OF resources_directory_nonempty]
  by (auto simp: resourceLinks_def)


lemma linkResources_fs_once:
  assumes r: "fs_exec (Rimraf (path_join cwd ''resources'')) (fs w) = Inr f1"
      and m: "fs_exec (Mkdirp (path_join cwd ''resources'')) f1 = Inr f2"
      and v: "fs v = f2"
  shows "fs (snd (linkResources P cwd ps w))
           = fs (symlinkAll (resourceLinks P (path_join cwd ''resources'') ps) v)"
proof -
  have "fs (snd (linkResources P cwd ps w))
      = fs (symlinkAll (resourceLinks P (path_join cwd ''resources'') ps)
              (w\<lparr>fs := f2,
                 syscalls := syscalls w @ [Rimraf (path_join cwd ''resources''),
                                           Mkdirp (path_join cwd ''resources'')]\<rparr>))"
    by (simp add: linkResources_links [OF r m])
  also have "\<dots> = fs (symlinkAll (resourceLinks P (path_join cwd ''resources'') ps) v)"
    by (rule symlinkAll_fs_only) (simp add: v)
  finally show ?thesis .
qed

text \<open>
  C9. Linking twice in succession with the same arguments leaves the filesystem as
  linking once does, with the same outcome. After a call that resolves, everything
  below the resources directory is a link made for one of the requested resources or
  for the bridge resource: nothing is left over from before. A path holds at most one
  entry, so there are no duplicates.
\<close>

theorem linkResources_idempotent:
  "fs (snd (linkResources P cwd ps (snd (linkResources P cwd ps w))))
     = fs (snd (linkResources P cwd ps w)) \<and>
   fst (linkResources P cwd ps (snd (linkResources P cwd ps w)))
     = fst (linkResources P cwd ps w) \<and>
   (fst (linkResources P cwd ps w) = Resolved \<longrightarrow>
      (\<forall>p n. under (path_join cwd ''resources'') p \<and> p \<noteq> path_join cwd ''resources'' \<and>
             entries (fs (snd (linkResources P cwd ps w))) p = Some n \<longrightarrow>
             (\<exists>l \<in> set (resourceLinks P (path_join cwd ''resources'') ps).
                p = snd l \<and> n = Link (fst l))))"
proof -
  let ?dir = "path_join cwd ''resources''"
  let ?ls = "resourceLinks P ?dir ps"
  let ?once = "snd (linkResources P cwd ps w)"
  show ?thesis
  proof (cases "fs_exec (Rimraf ?dir) (fs w)")
    case (Inl e)
    have once: "linkResources P cwd ps w = (Rejected e, w\<lparr>syscalls := syscalls w @ [Rimraf ?dir]\<rparr>)"
      using Inl by (rule linkResources_rimraf_fails)
    have "fs_exec (Rimraf ?dir) (fs ?once) = Inl e"
      using Inl by (simp add: once del: fs_exec.simps)
    then have "linkResources P cwd ps ?once
        = (Rejected e, ?once\<lparr>syscalls := syscalls ?once @ [Rimraf ?dir]\<rparr>)"
      by (rule linkResources_rimraf_fails)
    then show ?thesis by (simp add: once)
  next
    case (Inr f1)
    note r = Inr
    have f1: "f1 = cleared ?dir (fs w)" using rimraf_result [OF r] by simp
    show ?thesis
    proof (cases "fs_exec (Mkdirp ?dir) f1")
      case (Inl e)
      have once: "linkResources P cwd ps w
          = (Rejected e, w\<lparr>fs := f1, syscalls := syscalls w @ [Rimraf ?dir, Mkdirp ?dir]\<rparr>)"
        using r Inl by (rule linkResources_mkdirp_fails)
      have "fs_exec (Rimraf ?dir) (fs ?once) = Inr f1"
        using rimraf_again [OF r] by (simp add: once del: fs_exec.simps)
      then have "linkResources P cwd ps ?once
          = (Rejected e, ?once\<lparr>fs := f1, syscalls := syscalls ?once @ [Rimraf ?dir, Mkdirp ?dir]\<rparr>)"
        using Inl by (rule linkResources_mkdirp_fails)
      then show ?thesis by (simp add: once)
    next
      case (Inr f2)
      note m = Inr
      let ?v = "w\<lparr>fs := f2\<rparr>"
      have fst1: "fst (linkResources P cwd ps w) = Resolved"
        by (simp add: linkResources_links [OF r m])
      have once: "fs ?once = fs (symlinkAll ?ls ?v)"
        by (rule linkResources_fs_once [OF r m]) simp
      have f2: "f2 = f1\<lparr>entries := (entries f1)(?dir \<mapsto> Dir)\<rparr>"
        using m mkdirp_result [of ?dir "fs w" f2] by (simp add: f1)
      have "cleared ?dir (fs ?once) = cleared ?dir f2"
        using symlinkAll_cleared [of ?ls ?dir ?v] resourceLinks_under [of _ P cwd ps]
        by (simp add: once)
      also have "\<dots> = f1"
        by (simp add: f2 f1 cleared_def fun_eq_iff under_def)
      finally have cl: "cleared ?dir (fs ?once) = f1" .
      have "denied (fs ?once) = denied (fs w)"
        using fs_exec_denied [OF r] fs_exec_denied [OF m] by (simp add: once)
      moreover have "\<not> denied (fs w) (Rimraf ?dir)" using rimraf_result [OF r] by simp
      ultimately have r2: "fs_exec (Rimraf ?dir) (fs ?once) = Inr f1"
        using cl by simp
      have twice: "fs (snd (linkResources P cwd ps ?once)) = fs (symlinkAll ?ls ?v)"
        by (rule linkResources_fs_once [OF r2 m]) simp
      have fst2: "fst (linkResources P cwd ps ?once) = Resolved"
        by (simp add: linkResources_links [OF r2 m])
      have orphans: "\<exists>l \<in> set ?ls. p = snd l \<and> n = Link (fst l)"
        if p: "under ?dir p" "p \<noteq> ?dir" "entries (fs ?once) p = Some n" for p n
      proof -
        have "entries f2 p = None"
          using p(1,2) by (simp add: f2 f1 cleared_def)
        with symlinkAll_entries [of ?ls ?v p n] p(3) show ?thesis
          by (simp add: once)
      qed
      show ?thesis
        using once twice fst1 fst2 orphans by auto
    qed
  qed
qed

theorem linkResources_idempotent_witness:
  "fst (linkResources examplePaths ''/p/.fxserver'' [''/p/res/a'', ''/p/res/b''] (init emptyFs))
     = Resolved \<and>
   entries (fs (snd (linkResources examplePaths ''/p/.fxserver'' [''/p/res/a'', ''/p/res/b'']
      (init emptyFs)))) ''/p/.fxserver/resources/a'' = Some (Link ''/p/res/a'') \<and>
   (\<exists>l \<in> set (resourceLinks examplePaths ''/p/.fxserver/resources'' [''/p/res/a'', ''/p/res/b'']).
      ''/p/.fxserver/resources/a'' = snd l \<and> Link ''/p/res/a'' = Link (fst l)) \<and>
   fs (snd (linkResources examplePaths ''/p/.fxserver'' [''/p/res/a'', ''/p/res/b'']
        (snd (linkResources examplePaths ''/p/.fxserver'' [''/p/res/a'', ''/p/res/b''] (init emptyFs)))))
     = fs (snd (linkResources examplePaths ''/p/.fxserver'' [''/p/res/a'', ''/p/res/b''] (init emptyFs)))"
proof -
  let ?cwd = "''/p/.fxserver''"
  let ?dir = "''/p/.fxserver/resources''"
  let ?ps = "[''/p/res/a'', ''/p/res/b'']"
  let ?once = "linkResources examplePaths ?cwd ?ps (init emptyFs)"
  have dir: "path_join ?cwd ''resources'' = ?dir" by (simp add: path_join_def)
  have links: "resourceLinks examplePaths ?dir ?ps
      = [(''/sdk/sdk-game'', ''/p/.fxserver/resources/sdk-game''),
         (''/p/res/a'', ''/p/.fxserver/resources/a''),
         (''/p/res/b'', ''/p/.fxserver/resources/b'')]"
    by (simp add: resourceLinks_def examplePaths_def path_join_def path_basename_def)
  have r: "fst ?once = Resolved"
    by (simp add: linkResources_def Let_def dir sys_def init_def emptyFs_def case_prod_beta)
  have e: "entries (fs (snd ?once)) ''/p/.fxserver/resources/a'' = Some (Link ''/p/res/a'')"
    by (simp add: linkResources_def Let_def dir links sys_def init_def emptyFs_def case_prod_beta
          under_def sendIpcEvent_def client_log_def)
  have u: "under ?dir ''/p/.fxserver/resources/a'' \<and> ''/p/.fxserver/resources/a'' \<noteq> ?dir"
    by (simp add: under_def)
  from r e u show ?thesis
    using linkResources_idempotent [of examplePaths ?cwd ?ps "init emptyFs"]
    by (simp only: dir) blast
qed

subsection \<open>What the methods and callbacks leave alone\<close>

lemma linkResources_denied [simp]:
  "denied (fs (snd (linkResources P d ps w))) = denied (fs w)"
proof -
  have a: "denied (fs (snd (sys c v))) = denied (fs v)" for c v by simp
  show ?thesis
    by (simp add: linkResources_def Let_def case_prod_beta a split: option.splits)
qed

lemma fold_sendIpcEvent_frame [simp]:
  "state (fold (\<lambda>n. sendIpcEvent t (Some n)) ns w) = state w"
  "ipcServer (fold (\<lambda>n. sendIpcEvent t (Some n)) ns w) = ipcServer w"
  "ipcSocket (fold (\<lambda>n. sendIpcEvent t (Some n)) ns w) = ipcSocket w"
  "server (fold (\<lambda>n. sendIpcEvent t (Some n)) ns w) = server w"
  "currentEnabledResourcesPaths (fold (\<lambda>n. sendIpcEvent t (Some n)) ns w)
     = currentEnabledResourcesPaths w"
  "emitted (fold (\<lambda>n. sendIpcEvent t (Some n)) ns w) = emitted w"
  "registered (fold (\<lambda>n. sendIpcEvent t (Some n)) ns w) = registered w"
  "invoked (fold (\<lambda>n. sendIpcEvent t (Some n)) ns w) = invoked w"
  "registeredBy (fold (\<lambda>n. sendIpcEvent t (Some n)) ns w) = registeredBy w"
  "fs (fold (\<lambda>n. sendIpcEvent t (Some n)) ns w) = fs w"
  "syscalls (fold (\<lambda>n. sendIpcEvent t (Some n)) ns w) = syscalls w"
  "endpoints (fold (\<lambda>n. sendIpcEvent t (Some n)) ns w) = endpoints w"
  "sockets (fold (\<lambda>n. sendIpcEvent t (Some n)) ns w) = sockets w"
  "children (fold (\<lambda>n. sendIpcEvent t (Some n)) ns w) = children w"
  "killed (fold (\<lambda>n. sendIpcEvent t (Some n)) ns w) = killed w"
  "execs (fold (\<lambda>n. sendIpcEvent t (Some n)) ns w) = execs w"
  "nextId (fold (\<lambda>n. sendIpcEvent t (Some n)) ns w) = nextId w"
  by (induction ns arbitrary: w; simp)+

lemma fold_sendIpcEvent_written:
  "written (fold (\<lambda>n. sendIpcEvent t (Some n)) ns w)
     = written w @ (case ipcSocket w of None \<Rightarrow> []
                    | Some sock \<Rightarrow> map (\<lambda>n. (sock, t, Some n)) ns)"
  by (induction ns arbitrary: w) (simp_all add: sendIpcEvent_written split: option.splits)

lemma handleRelinkResources_frame [simp]:
  "state (snd (handleRelinkResources P r w)) = state w"
  "ipcServer (snd (handleRelinkResources P r w)) = ipcServer w"
  "ipcSocket (snd (handleRelinkResources P r w)) = ipcSocket w"
  "server (snd (handleRelinkResources P r w)) = server w"
  "currentEnabledResourcesPaths (snd (handleRelinkResources P r w)) = currentEnabledResourcesPaths w"
  "emitted (snd (handleRelinkResources P r w)) = emitted w"
  "registered (snd (handleRelinkResources P r w)) = registered w"
  "invoked (snd (handleRelinkResources P r w)) = invoked w"
  "registeredBy (snd (handleRelinkResources P r w)) = registeredBy w"
  "endpoints (snd (handleRelinkResources P r w)) = endpoints w"
  "sockets (snd (handleRelinkResources P r w)) = sockets w"
  "children (snd (handleRelinkResources P r w)) = children w"
  "killed (snd (handleRelinkResources P r w)) = killed w"
  "execs (snd (handleRelinkResources P r w)) = execs w"
  "nextId (snd (handleRelinkResources P r w)) = nextId w"
  "denied (fs (snd (handleRelinkResources P r w))) = denied (fs w)"
  by (simp_all add: handleRelinkResources_def Let_def case_prod_beta split: result.splits)

lemma refreshResources_frame [simp]:
  "state (snd (refreshResources P r w)) = state w"
  "ipcServer (snd (refreshResources P r w)) = ipcServer w"
  "ipcSocket (snd (refreshResources P r w)) = ipcSocket w"
  "server (snd (refreshResources P r w)) = server w"
  "currentEnabledResourcesPaths (snd (refreshResources P r w)) = currentEnabledResourcesPaths w"
  "emitted (snd (refreshResources P r w)) = emitted w"
  "registered (snd (refreshResources P r w)) = registered w"
  "invoked (snd (refreshResources P r w)) = invoked w"
  "registeredBy (snd (refreshResources P r w)) = registeredBy w"
  "endpoints (snd (refreshResources P r w)) = endpoints w"
  "sockets (snd (refreshResources P r w)) = sockets w"
  "children (snd (refreshResources P r w)) = children w"
  "killed (snd (refreshResources P r w)) = killed w"
  "execs (snd (refreshResources P r w)) = execs w"
  "nextId (snd (refreshResources P r w)) = nextId w"
  "denied (fs (snd (refreshResources P r w))) = denied (fs w)"
  by (simp_all add: refreshResources_def Let_def case_prod_beta
        split: result.splits option.splits)

lemma handleResourceRestart_frame [simp]:
  "state (handleResourceRestart n w) = state w"
  "ipcServer (handleResourceRestart n w) = ipcServer w"
  "ipcSocket (handleResourceRestart n w) = ipcSocket w"
  "server (handleResourceRestart n w) = server w"
  "currentEnabledResourcesPaths (handleResourceRestart n w) = currentEnabledResourcesPaths w"
  "emitted (handleResourceRestart n w) = emitted w"
  "registered (handleResourceRestart n w) = registered w"
  "invoked (handleResourceRestart n w) = invoked w"
  "registeredBy (handleResourceRestart n w) = registeredBy w"
  "fs (handleResourceRestart n w) = fs w"
  "endpoints (handleResourceRestart n w) = endpoints w"
  "sockets (handleResourceRestart n w) = sockets w"
  "children (handleResourceRestart n w) = children w"
  "killed (handleResourceRestart n w) = killed w"
  "execs (handleResourceRestart n w) = execs w"
  "nextId (handleResourceRestart n w) = nextId w"
  by (simp_all add: handleResourceRestart_def)

lemma forward_frame [simp]:
  "state (forward ev arg w) = state w"
  "ipcServer (forward ev arg w) = ipcServer w"
  "ipcSocket (forward ev arg w) = ipcSocket w"
  "server (forward ev arg w) = server w"
  "currentEnabledResourcesPaths (forward ev arg w) = currentEnabledResourcesPaths w"
  "emitted (forward ev arg w) = emitted w"
  "registered (forward ev arg w) = registered w"
  "invoked (forward ev arg w) = invoked w"
  "registeredBy (forward ev arg w) = registeredBy w"
  "fs (forward ev arg w) = fs w"
  "endpoints (forward ev arg w) = endpoints w"
  "sockets (forward ev arg w) = sockets w"
  "children (forward ev arg w) = children w"
  "killed (forward ev arg w) = killed w"
  "execs (forward ev arg w) = execs w"
  "nextId (forward ev arg w) = nextId w"
  by (cases ev; simp)+

lemma deliver_frame [simp]:
  "state (deliver rs ev arg w) = state w"
  "ipcServer (deliver rs ev arg w) = ipcServer w"
  "ipcSocket (deliver rs ev arg w) = ipcSocket w"
  "server (deliver rs ev arg w) = server w"
  "currentEnabledResourcesPaths (deliver rs ev arg w) = currentEnabledResourcesPaths w"
  "emitted (deliver rs ev arg w) = emitted w"
  "registered (deliver rs ev arg w) = registered w"
  "registeredBy (deliver rs ev arg w) = registeredBy w"
  "fs (deliver rs ev arg w) = fs w"
  "endpoints (deliver rs ev arg w) = endpoints w"
  "sockets (deliver rs ev arg w) = sockets w"
  "children (deliver rs ev arg w) = children w"
  "killed (deliver rs ev arg w) = killed w"
  "execs (deliver rs ev arg w) = execs w"
  "nextId (deliver rs ev arg w) = nextId w"
  by (induction rs ev arg w rule: deliver.induct; simp)+

lemma deliver_invoked:
  "invoked (deliver rs ev arg w) = invoked w @ map fst (filter (\<lambda>r. snd r = ev) rs)"
  by (induction rs ev arg w rule: deliver.induct) simp_all


lemma start_frame [simp]:
  "state (snd (start P r sp w)) = Booting"
  "ipcSocket (snd (start P r sp w)) = ipcSocket w"
  "registered (snd (start P r sp w)) = registered w"
  "invoked (snd (start P r sp w)) = invoked w"
  "registeredBy (snd (start P r sp w)) = registeredBy w"
  "sockets (snd (start P r sp w)) = sockets w"
  "killed (snd (start P r sp w)) = killed w"
  "denied (fs (snd (start P r sp w))) = denied (fs w)"
  by (simp_all add: start_def Let_def case_prod_beta toState_def ackState_def setupIpc_def
        split: result.splits option.splits)

lemma stop_frame [simp]:
  "state (stop w) = state w"
  "ipcServer (stop w) = ipcServer w"
  "ipcSocket (stop w) = ipcSocket w"
  "server (stop w) = server w"
  "currentEnabledResourcesPaths (stop w) = currentEnabledResourcesPaths w"
  "clientLog (stop w) = clientLog w"
  "emitted (stop w) = emitted w"
  "registered (stop w) = registered w"
  "invoked (stop w) = invoked w"
  "registeredBy (stop w) = registeredBy w"
  "fs (stop w) = fs w"
  "endpoints (stop w) = endpoints w"
  "sockets (stop w) = sockets w"
  "written (stop w) = written w"
  "children (stop w) = children w"
  "execs (stop w) = execs w"
  "nextId (stop w) = nextId w"
  by (simp_all add: stop_def kill_def split: option.splits)

lemma ackState_frame [simp]:
  "state (ackState w) = state w"
  "ipcServer (ackState w) = ipcServer w"
  "ipcSocket (ackState w) = ipcSocket w"
  "server (ackState w) = server w"
  "currentEnabledResourcesPaths (ackState w) = currentEnabledResourcesPaths w"
  "clientLog (ackState w) = clientLog w"
  "emitted (ackState w) = emitted w @ [EmitState (state w)]"
  "registered (ackState w) = registered w"
  "invoked (ackState w) = invoked w"
  "registeredBy (ackState w) = registeredBy w"
  "fs (ackState w) = fs w"
  "endpoints (ackState w) = endpoints w"
  "sockets (ackState w) = sockets w"
  "written (ackState w) = written w"
  "children (ackState w) = children w"
  "killed (ackState w) = killed w"
  "execs (ackState w) = execs w"
  "nextId (ackState w) = nextId w"
  by (simp_all add: ackState_def)

lemma toState_frame [simp]:
  "state (toState s w) = s"
  "ipcServer (toState s w) = ipcServer w"
  "ipcSocket (toState s w) = ipcSocket w"
  "server (toState s w) = server w"
  "currentEnabledResourcesPaths (toState s w) = currentEnabledResourcesPaths w"
  "clientLog (toState s w) = clientLog w"
  "emitted (toState s w) = emitted w @ [EmitState s]"
  "registered (toState s w) = registered w"
  "invoked (toState s w) = invoked w"
  "registeredBy (toState s w) = registeredBy w"
  "fs (toState s w) = fs w"
  "endpoints (toState s w) = endpoints w"
  "sockets (toState s w) = sockets w"
  "written (toState s w) = written w"
  "children (toState s w) = children w"
  "killed (toState s w) = killed w"
  "execs (toState s w) = execs w"
  "nextId (toState s w) = nextId w"
  by (simp_all add: toState_def)

lemma serverOnStdout_frame [simp]:
  "state (serverOnStdout d w) = state w"
  "ipcSocket (serverOnStdout d w) = ipcSocket w"
  "currentEnabledResourcesPaths (serverOnStdout d w) = currentEnabledResourcesPaths w"
  "registered (serverOnStdout d w) = registered w"
  "invoked (serverOnStdout d w) = invoked w"
  "registeredBy (serverOnStdout d w) = registeredBy w"
  "fs (serverOnStdout d w) = fs w"
  "endpoints (serverOnStdout d w) = endpoints w"
  "sockets (serverOnStdout d w) = sockets w"
  "written (serverOnStdout d w) = written w"
  "children (serverOnStdout d w) = children w"
  "nextId (serverOnStdout d w) = nextId w"
  by (simp_all add: serverOnStdout_def)

lemma serverOnExit_frame [simp]:
  "state (serverOnExit w) = Down"
  "ipcSocket (serverOnExit w) = ipcSocket w"
  "currentEnabledResourcesPaths (serverOnExit w) = currentEnabledResourcesPaths w"
  "registered (serverOnExit w) = registered w"
  "invoked (serverOnExit w) = invoked w"
  "registeredBy (serverOnExit w) = registeredBy w"
  "fs (serverOnExit w) = fs w"
  "sockets (serverOnExit w) = sockets w"
  "written (serverOnExit w) = written w"
  "children (serverOnExit w) = children w"
  "nextId (serverOnExit w) = nextId w"
  by (simp_all add: serverOnExit_def Let_def closeEndpoint_def split: option.splits)

lemma lineStreamOnData_frame [simp]:
  "ipcServer (lineStreamOnData m p w) = ipcServer w"
  "ipcSocket (lineStreamOnData m p w) = ipcSocket w"
  "server (lineStreamOnData m p w) = server w"
  "currentEnabledResourcesPaths (lineStreamOnData m p w) = currentEnabledResourcesPaths w"
  "registered (lineStreamOnData m p w) = registered w"
  "invoked (lineStreamOnData m p w) = invoked w"
  "registeredBy (lineStreamOnData m p w) = registeredBy w"
  "fs (lineStreamOnData m p w) = fs w"
  "endpoints (lineStreamOnData m p w) = endpoints w"
  "sockets (lineStreamOnData m p w) = sockets w"
  "written (lineStreamOnData m p w) = written w"
  "children (lineStreamOnData m p w) = children w"
  "killed (lineStreamOnData m p w) = killed w"
  "execs (lineStreamOnData m p w) = execs w"
  "nextId (lineStreamOnData m p w) = nextId w"
  by (simp_all add: lineStreamOnData_def split: option.splits prod.splits)

lemma ipcServerOnConnection_frame [simp]:
  "state (ipcServerOnConnection srv sock w) = state w"
  "ipcServer (ipcServerOnConnection srv sock w) = ipcServer w"
  "ipcSocket (ipcServerOnConnection srv sock w) = Some sock"
  "server (ipcServerOnConnection srv sock w) = server w"
  "currentEnabledResourcesPaths (ipcServerOnConnection srv sock w) = currentEnabledResourcesPaths w"
  "invoked (ipcServerOnConnection srv sock w) = invoked w"
  "fs (ipcServerOnConnection srv sock w) = fs w"
  "sockets (ipcServerOnConnection srv sock w) = sockets w"
  "written (ipcServerOnConnection srv sock w) = written w"
  "children (ipcServerOnConnection srv sock w) = children w"
  "nextId (ipcServerOnConnection srv sock w) = nextId w + 4"
  "registered (ipcServerOnConnection srv sock w)
     = registered w @ [(nextId w, AckResourcesState), (nextId w + 1, RestartResource),
                      (nextId w + 2, StopResource), (nextId w + 3, StartResource)]"
  "registeredBy (ipcServerOnConnection srv sock w)
     = registeredBy w @ [(nextId w, sock, srv), (nextId w + 1, sock, srv),
                        (nextId w + 2, sock, srv), (nextId w + 3, sock, srv)]"
  by (simp_all add: ipcServerOnConnection_def Let_def client_on_def split: option.splits)

lemma fold_dispose_frame [simp]:
  "state (fold dispose hs w) = state w"
  "ipcServer (fold dispose hs w) = ipcServer w"
  "ipcSocket (fold dispose hs w) = ipcSocket w"
  "currentEnabledResourcesPaths (fold dispose hs w) = currentEnabledResourcesPaths w"
  "invoked (fold dispose hs w) = invoked w"
  "registeredBy (fold dispose hs w) = registeredBy w"
  "fs (fold dispose hs w) = fs w"
  "endpoints (fold dispose hs w) = endpoints w"
  "sockets (fold dispose hs w) = sockets w"
  "written (fold dispose hs w) = written w"
  "children (fold dispose hs w) = children w"
  "nextId (fold dispose hs w) = nextId w"
  by (induction hs arbitrary: w; simp add: dispose_def)+

lemma fold_dispose_registered:
  "registered (fold dispose hs w) = filter (\<lambda>r. fst r \<notin> set hs) (registered w)"
  by (induction hs arbitrary: w) (auto simp: dispose_def intro: filter_cong)

lemma ipcServerOnClose_frame [simp]:
  "state (ipcServerOnClose srv w) = state w"
  "currentEnabledResourcesPaths (ipcServerOnClose srv w) = currentEnabledResourcesPaths w"
  "invoked (ipcServerOnClose srv w) = invoked w"
  "registeredBy (ipcServerOnClose srv w) = registeredBy w"
  "fs (ipcServerOnClose srv w) = fs w"
  "sockets (ipcServerOnClose srv w) = sockets w"
  "written (ipcServerOnClose srv w) = written w"
  "children (ipcServerOnClose srv w) = children w"
  "nextId (ipcServerOnClose srv w) = nextId w"
  by (simp_all add: ipcServerOnClose_def Let_def split: option.splits)

lemma step_denied [simp]: "denied (fs (step P e w)) = denied (fs w)"
  by (cases e) (simp_all split: option.splits)

lemma run_denied [simp]: "denied (fs (run P es w)) = denied (fs w)"
  by (induction es arbitrary: w) simp_all

subsection \<open>The example run\<close>

lemma start_resolved:
  assumes "start P request Spawned w = (Resolved, w1)"
  shows "server w1 = Some (nextId w)"
    and "children w1 = children w @ [nextId w]"
    and "ipcServer w1 = Some (Suc (nextId w))"
    and "nextId w1 = Suc (Suc (nextId w))"
    and "endpoints w1
           = (endpoints w)(Suc (nextId w) \<mapsto> \<lparr>listening = True, disposableHandlers = []\<rparr>)"
    and "currentEnabledResourcesPaths w1 = enabledResourcesPaths request"
  using assms
  by (auto simp: start_def Let_def case_prod_beta toState_def ackState_def setupIpc_def
        split: option.splits result.splits)

lemma linkResources_written_no_peer:
  "ipcSocket w = None \<Longrightarrow> written (snd (linkResources P d ps w)) = written w"
  by (simp add: linkResources_def Let_def case_prod_beta sendIpcEvent_written
        split: option.splits)

lemma start_written_no_peer:
  "ipcSocket w = None \<Longrightarrow> written (snd (start P r sp w)) = written w"
  by (simp add: start_def Let_def case_prod_beta toState_def ackState_def setupIpc_def
        linkResources_written_no_peer split: option.splits result.splits)

lemma start_example_resolves:
  "start examplePaths exampleRequest Spawned (init emptyFs)
     = (Resolved, snd (start examplePaths exampleRequest Spawned (init emptyFs)))"
  by (simp add: start_def Let_def case_prod_beta sys_def linkResources_def emptyFs_def
        init_def exampleRequest_def getProjectServerPath_def path_join_def under_def
        toState_def ackState_def client_emit_def client_log_def)

lemma bootingWorld_step:
  "step examplePaths (IpcConnection (Suc 0))
       (snd (start examplePaths exampleRequest Spawned (init emptyFs)))
     = bootingWorld"
  by (simp add: bootingWorld_def)

lemma init_fields:
  "sockets (init f) = []"
  "nextId (init f) = 0"
  "endpoints (init f) = Map.empty"
  by (simp_all add: init_def)

lemma bootingWorld_eq:
  "bootingWorld
     = ipcServerOnConnection 1 2
         ((snd (start examplePaths exampleRequest Spawned (init emptyFs)))
            \<lparr>sockets := [(2, 1)], nextId := 3\<rparr>)"
proof -
  let ?w1 = "snd (start examplePaths exampleRequest Spawned (init emptyFs))"
  note r = start_resolved [OF start_example_resolves]
  have e: "endpoints ?w1 (Suc 0) = Some \<lparr>listening = True, disposableHandlers = []\<rparr>"
    using r(5) by (simp add: init_fields)
  have n: "nextId ?w1 = 2" using r(4) by (simp add: init_fields)
  have s: "sockets ?w1 = []" by (simp add: init_fields)
  show ?thesis
    unfolding bootingWorld_step [symmetric] by (simp add: e n s init_fields)
qed

lemma bootingWorld_fields:
  "state bootingWorld = Booting"
  "ipcSocket bootingWorld = Some 2"
  "ipcServer bootingWorld = Some 1"
  "server bootingWorld = Some 0"
  "currentEnabledResourcesPaths bootingWorld = [''/p/res/a'', ''/p/res/b'']"
  "registered bootingWorld
     = [(3, AckResourcesState), (4, RestartResource), (5, StopResource), (6, StartResource)]"
  "invoked bootingWorld = []"
  "sockets bootingWorld = [(2, 1)]"
  "written bootingWorld = []"
  "children bootingWorld = [0]"
  "nextId bootingWorld = 7"
  "registeredBy bootingWorld = [(3, 2, 1), (4, 2, 1), (5, 2, 1), (6, 2, 1)]"
  "endpoints bootingWorld (Suc 0) = Some \<lparr>listening = True, disposableHandlers = [3, 4, 5, 6]\<rparr>"
proof -
  let ?w1 = "snd (start examplePaths exampleRequest Spawned (init emptyFs))"
  note r = start_resolved [OF start_example_resolves]
  have w: "written ?w1 = []"
    using start_written_no_peer [of "init emptyFs" examplePaths exampleRequest Spawned]
    by (simp add: init_def)
  show "state bootingWorld = Booting" by (simp add: bootingWorld_eq)
  show "ipcSocket bootingWorld = Some 2" by (simp add: bootingWorld_eq)
  show "ipcServer bootingWorld = Some 1" using r(3) by (simp add: bootingWorld_eq init_def)
  show "server bootingWorld = Some 0" using r(1) by (simp add: bootingWorld_eq init_def)
  show "currentEnabledResourcesPaths bootingWorld = [''/p/res/a'', ''/p/res/b'']"
    using r(6) by (simp add: bootingWorld_eq exampleRequest_def)
  show "registered bootingWorld
     = [(3, AckResourcesState), (4, RestartResource), (5, StopResource), (6, StartResource)]"
    by (simp add: bootingWorld_eq init_def)
  show "invoked bootingWorld = []" by (simp add: bootingWorld_eq init_def)
  show "sockets bootingWorld = [(2, 1)]" by (simp add: bootingWorld_eq)
  show "written bootingWorld = []" using w by (simp add: bootingWorld_eq)
  show "children bootingWorld = [0]" using r(2) by (simp add: bootingWorld_eq init_def)
  show "nextId bootingWorld = 7" by (simp add: bootingWorld_eq)
  show "registeredBy bootingWorld = [(3, 2, 1), (4, 2, 1), (5, 2, 1), (6, 2, 1)]"
    by (simp add: bootingWorld_eq init_def)
  show "endpoints bootingWorld (Suc 0) = Some \<lparr>listening = True, disposableHandlers = [3, 4, 5, 6]\<rparr>"
    using r(5)
    by (simp add: bootingWorld_eq ipcServerOnConnection_def Let_def client_on_def init_def)
qed

subsection \<open>The example run, once the server is up\<close>

lemma upWorld_eq: "upWorld = toState Up bootingWorld"
  by (simp add: upWorld_def bootingWorld_fields lineStreamOnData_def)

lemma bootingWorld_denied: "denied (fs bootingWorld) = (\<lambda>c. False)"
proof -
  have "denied (fs bootingWorld) = denied (fs (init emptyFs))"
    unfolding bootingWorld_def by (rule run_denied)
  then show ?thesis by (simp add: init_def emptyFs_def)
qed

lemma upWorld_fields:
  "state upWorld = Up"
  "ipcSocket upWorld = Some 2"
  "currentEnabledResourcesPaths upWorld = [''/p/res/a'', ''/p/res/b'']"
  "written upWorld = []"
  "denied (fs upWorld) = (\<lambda>c. False)"
  "children upWorld = [0]"
  "sockets upWorld = [(2, 1)]"
  by (simp_all add: upWorld_eq bootingWorld_fields bootingWorld_denied)

subsection \<open>Relinking\<close>

lemma linkResources_resolves:
  assumes "\<not> denied (fs w) (Rimraf (path_join cwd ''resources''))"
      and "\<not> denied (fs w) (Mkdirp (path_join cwd ''resources''))"
  shows "fst (linkResources P cwd ps w) = Resolved"
proof -
  let ?dir = "path_join cwd ''resources''"
  have r: "fs_exec (Rimraf ?dir) (fs w) = Inr (cleared ?dir (fs w))"
    using assms(1) by simp
  have "entries (cleared ?dir (fs w)) ?dir = None" by (simp add: under_def)
  then have m: "fs_exec (Mkdirp ?dir) (cleared ?dir (fs w))
      = Inr ((cleared ?dir (fs w))\<lparr>entries := (entries (cleared ?dir (fs w)))(?dir \<mapsto> Dir)\<rparr>)"
    using assms(2) by simp
  show ?thesis by (simp add: linkResources_links [OF r m])
qed

lemma linkResources_written:
  "fst (linkResources P cwd ps w) = Resolved \<Longrightarrow>
     written (snd (linkResources P cwd ps w))
       = written w @ (case ipcSocket w of None \<Rightarrow> [] | Some sock \<Rightarrow> [(sock, ''refresh'', None)])"
  by (auto simp: linkResources_def Let_def case_prod_beta sendIpcEvent_written
        split: option.splits)

lemma handleRelinkResources_not_up:
  "state w \<noteq> Up \<Longrightarrow> handleRelinkResources P request w = (Resolved, w)"
  by (simp add: handleRelinkResources_def)

lemma handleRelinkResources_up:
  assumes "state w = Up"
      and "fst (linkResources P (getProjectServerPath (relinkProjectPath request))
                 (resourcesPaths request) w) = Resolved"
  shows "handleRelinkResources P request w =
     (Resolved,
      fold (\<lambda>resourceName. sendIpcEvent ''restart'' (Some resourceName))
        (case restartResourcesWithPath request of
           None \<Rightarrow> []
         | Some p \<Rightarrow>
             if p = [] then []
             else map path_basename
                    (filter (\<lambda>resourcePath. startsWith resourcePath p)
                       (currentEnabledResourcesPaths w)))
        (snd (linkResources P (getProjectServerPath (relinkProjectPath request))
                (resourcesPaths request) w)))"
  using assms by (simp add: handleRelinkResources_def Let_def case_prod_beta split: result.splits)

text \<open>
  C4, as the code has it. While the state is not \<open>Up\<close> a relink request changes nothing
  at all. While it is \<open>Up\<close> and the linking resolves, the request resolves with the
  filesystem as the linking left it, and what is sent after the linking's own \<open>refresh\<close>
  is: for a request that carries a non-empty \<open>restartResourcesWithPath\<close>, one \<open>restart\<close>
  directive per entry of \<open>currentEnabledResourcesPaths\<close> that starts with it, named by
  basename, in order, through \<open>sendIpcEvent\<close> (so written if a peer is connected);
  for a request that carries none, or the empty string, nothing.
\<close>

theorem handleRelinkResources_restarts:
  "(state w \<noteq> Up \<longrightarrow> handleRelinkResources P request w = (Resolved, w)) \<and>
   (state w = Up \<and>
    fst (linkResources P (getProjectServerPath (relinkProjectPath request))
           (resourcesPaths request) w) = Resolved \<longrightarrow>
      fst (handleRelinkResources P request w) = Resolved \<and>
      fs (snd (handleRelinkResources P request w))
        = fs (snd (linkResources P (getProjectServerPath (relinkProjectPath request))
                     (resourcesPaths request) w)) \<and>
      (\<forall>p. restartResourcesWithPath request = Some p \<and> p \<noteq> [] \<longrightarrow>
         written (snd (handleRelinkResources P request w))
           = written (snd (linkResources P (getProjectServerPath (relinkProjectPath request))
                             (resourcesPaths request) w))
             @ (case ipcSocket w of
                  None \<Rightarrow> []
                | Some sock \<Rightarrow>
                    map (\<lambda>resourcePath. (sock, ''restart'', Some (path_basename resourcePath)))
                      (filter (\<lambda>resourcePath. startsWith resourcePath p)
                         (currentEnabledResourcesPaths w)))) \<and>
      (restartResourcesWithPath request = None \<or> restartResourcesWithPath request = Some [] \<longrightarrow>
         written (snd (handleRelinkResources P request w))
           = written (snd (linkResources P (getProjectServerPath (relinkProjectPath request))
                             (resourcesPaths request) w))))"
proof (intro conjI impI allI)
  assume "state w \<noteq> Up"
  then show "handleRelinkResources P request w = (Resolved, w)"
    by (rule handleRelinkResources_not_up)
next
  assume a: "state w = Up \<and>
    fst (linkResources P (getProjectServerPath (relinkProjectPath request))
           (resourcesPaths request) w) = Resolved"
  note eq = handleRelinkResources_up [OF conjunct1 [OF a] conjunct2 [OF a]]
  show "fst (handleRelinkResources P request w) = Resolved" by (simp add: eq)
  show "fs (snd (handleRelinkResources P request w))
        = fs (snd (linkResources P (getProjectServerPath (relinkProjectPath request))
                     (resourcesPaths request) w))"
    by (simp add: eq)
  {
    fix p assume "restartResourcesWithPath request = Some p \<and> p \<noteq> []"
    then show "written (snd (handleRelinkResources P request w))
           = written (snd (linkResources P (getProjectServerPath (relinkProjectPath request))
                             (resourcesPaths request) w))
             @ (case ipcSocket w of
                  None \<Rightarrow> []
                | Some sock \<Rightarrow>
                    map (\<lambda>resourcePath. (sock, ''restart'', Some (path_basename resourcePath)))
                      (filter (\<lambda>resourcePath. startsWith resourcePath p)
                         (currentEnabledResourcesPaths w)))"
      by (simp add: eq fold_sendIpcEvent_written comp_def split: option.splits)
  }
  assume "restartResourcesWithPath request = None \<or> restartResourcesWithPath request = Some []"
  then show "written (snd (handleRelinkResources P request w))
           = written (snd (linkResources P (getProjectServerPath (relinkProjectPath request))
                             (resourcesPaths request) w))"
    by (auto simp: eq)
qed

lemma upWorld_links:
  "fst (linkResources examplePaths (getProjectServerPath ''/p'') ps upWorld) = Resolved"
  by (rule linkResources_resolves) (simp_all add: upWorld_fields)

theorem handleRelinkResources_restarts_witness:
  "handleRelinkResources examplePaths relinkA (init emptyFs) = (Resolved, init emptyFs) \<and>
   state upWorld = Up \<and>
   written (snd (handleRelinkResources examplePaths relinkA upWorld))
     = [(2, ''refresh'', None), (2, ''restart'', Some ''a'')] \<and>
   written (snd (handleRelinkResources examplePaths relinkEmptyPrefix upWorld))
     = [(2, ''refresh'', None)]"
proof -
  have down: "state (init emptyFs) \<noteq> Up" by (simp add: init_def)
  have up: "state upWorld = Up \<and>
      fst (linkResources examplePaths (getProjectServerPath (relinkProjectPath relinkA))
             (resourcesPaths relinkA) upWorld) = Resolved"
    by (simp add: upWorld_fields relinkA_def upWorld_links)
  have up': "state upWorld = Up \<and>
      fst (linkResources examplePaths (getProjectServerPath (relinkProjectPath relinkEmptyPrefix))
             (resourcesPaths relinkEmptyPrefix) upWorld) = Resolved"
    by (simp add: upWorld_fields relinkEmptyPrefix_def upWorld_links)
  have pa: "restartResourcesWithPath relinkA = Some ''/p/res/a'' \<and> ''/p/res/a'' \<noteq> []"
    by (simp add: relinkA_def)
  have pe: "restartResourcesWithPath relinkEmptyPrefix = None \<or>
      restartResourcesWithPath relinkEmptyPrefix = Some []"
    by (simp add: relinkEmptyPrefix_def)
  have w1: "written (snd (linkResources examplePaths (getProjectServerPath ''/p'') ps upWorld))
      = [(2, ''refresh'', None)]" for ps
    by (simp add: linkResources_written [OF upWorld_links] upWorld_fields)
  have a: "handleRelinkResources examplePaths relinkA (init emptyFs) = (Resolved, init emptyFs)"
    using handleRelinkResources_restarts [of "init emptyFs" examplePaths relinkA] down by blast
  have b: "written (snd (handleRelinkResources examplePaths relinkA upWorld))
      = [(2, ''refresh'', None), (2, ''restart'', Some ''a'')]"
    using handleRelinkResources_restarts [of upWorld examplePaths relinkA] up pa w1
    by (simp add: relinkA_def upWorld_fields startsWith_def path_basename_def)
  have c: "written (snd (handleRelinkResources examplePaths relinkEmptyPrefix upWorld))
      = [(2, ''refresh'', None)]"
    using handleRelinkResources_restarts [of upWorld examplePaths relinkEmptyPrefix] up' pe w1
    by (simp add: relinkEmptyPrefix_def)
  from a b c show ?thesis by (simp add: upWorld_fields)
qed

text \<open>
  C4 as stated fails for the empty prefix: every recorded path starts with it, and no
  \<open>restart\<close> directive is sent, because the guard \<open>if (restartResourcesWithPath)\<close>
  takes the empty string for no prefix.
\<close>

theorem relink_empty_prefix_counterexample:
  "state upWorld = Up \<and>
   restartResourcesWithPath relinkEmptyPrefix = Some [] \<and>
   filter (\<lambda>resourcePath. startsWith resourcePath []) (currentEnabledResourcesPaths upWorld)
     = [''/p/res/a'', ''/p/res/b''] \<and>
   fst (handleRelinkResources examplePaths relinkEmptyPrefix upWorld) = Resolved \<and>
   written (snd (handleRelinkResources examplePaths relinkEmptyPrefix upWorld))
     = [(2, ''refresh'', None)]"
proof -
  have l: "fst (linkResources examplePaths (getProjectServerPath (relinkProjectPath relinkEmptyPrefix))
             (resourcesPaths relinkEmptyPrefix) upWorld) = Resolved"
    by (simp add: relinkEmptyPrefix_def upWorld_links)
  have "handleRelinkResources examplePaths relinkEmptyPrefix upWorld
      = (Resolved, snd (linkResources examplePaths (getProjectServerPath ''/p'')
                          [''/p/res/a'', ''/p/res/b''] upWorld))"
    using handleRelinkResources_up [OF upWorld_fields(1) l] by (simp add: relinkEmptyPrefix_def)
  then show ?thesis
    by (simp add: upWorld_fields startsWith_def relinkEmptyPrefix_def
          linkResources_written [OF upWorld_links])
qed

subsection \<open>Lines that cannot be read\<close>

lemma destructure_string:
  "destructure (JStr s) = Some (t, d) \<Longrightarrow> t \<noteq> Some (JStr ''state'') \<and> t \<noteq> Some (JStr ''ready'')"
  by (cases s) auto

text \<open>
  C6, as the code has it. A line that \<open>JSON.parse\<close> rejects, or whose value cannot be
  destructured (\<open>null\<close>, a boolean, a number, an object), only adds the line
  \<open>Error parsing message\<close> to the log: the sockets and the state are as before. An
  array is destructured whatever its length, and a string by its characters: unless
  the first element is \<open>state\<close> or \<open>ready\<close>, the line changes nothing and nothing
  is logged.
\<close>

theorem lineStreamOnData_unreadable:
  "(parsed = None \<or> parsed = Some JNull \<or> (\<exists>b. parsed = Some (JBool b)) \<or>
    (\<exists>n. parsed = Some (JNum n)) \<or> (\<exists>kv. parsed = Some (JObj kv)) \<longrightarrow>
      lineStreamOnData msg parsed w
        = w\<lparr>clientLog := clientLog w @ [LogErrorParsingMessage msg]\<rparr>) \<and>
   ((\<exists>xs. parsed = Some (JArr xs) \<and> element xs 0 \<noteq> Some (JStr ''state'') \<and>
          element xs 0 \<noteq> Some (JStr ''ready'')) \<or>
    (\<exists>s. parsed = Some (JStr s)) \<longrightarrow>
      lineStreamOnData msg parsed w = w)"
proof (intro conjI impI)
  assume "parsed = None \<or> parsed = Some JNull \<or> (\<exists>b. parsed = Some (JBool b)) \<or>
    (\<exists>n. parsed = Some (JNum n)) \<or> (\<exists>kv. parsed = Some (JObj kv))"
  then show "lineStreamOnData msg parsed w
        = w\<lparr>clientLog := clientLog w @ [LogErrorParsingMessage msg]\<rparr>"
    by (auto simp: lineStreamOnData_def client_log_def)
next
  assume "(\<exists>xs. parsed = Some (JArr xs) \<and> element xs 0 \<noteq> Some (JStr ''state'') \<and>
          element xs 0 \<noteq> Some (JStr ''ready'')) \<or>
    (\<exists>s. parsed = Some (JStr s))"
  then show "lineStreamOnData msg parsed w = w"
  proof
    assume "\<exists>xs. parsed = Some (JArr xs) \<and> element xs 0 \<noteq> Some (JStr ''state'') \<and>
          element xs 0 \<noteq> Some (JStr ''ready'')"
    then show ?thesis by (auto simp: lineStreamOnData_def)
  next
    assume "\<exists>s. parsed = Some (JStr s)"
    then obtain s where s: "parsed = Some (JStr s)" by blast
    obtain t d where td: "destructure (JStr s) = Some (t, d)" by simp
    from destructure_string [OF td] show ?thesis
      by (simp add: lineStreamOnData_def s td del: destructure.simps)
  qed
qed

theorem lineStreamOnData_unreadable_witness:
  "lineStreamOnData ''{bad json'' None bootingWorld
     = bootingWorld\<lparr>clientLog := clientLog bootingWorld @ [LogErrorParsingMessage ''{bad json'']\<rparr> \<and>
   lineStreamOnData ''[]'' (Some (JArr [])) bootingWorld = bootingWorld"
proof -
  have "element ([] :: json list) 0 \<noteq> Some (JStr ''state'') \<and>
        element ([] :: json list) 0 \<noteq> Some (JStr ''ready'')"
    by simp
  then show ?thesis
    using lineStreamOnData_unreadable [of None "''{bad json''" bootingWorld]
          lineStreamOnData_unreadable [of "Some (JArr [])" "''[]''" bootingWorld]
    by blast
qed

text \<open>
  C6 as stated fails for the line \<open>["ready"]\<close>: it is not an array of two elements, and
  it takes the state from \<open>Booting\<close> to \<open>Up\<close> without a log line.
\<close>

theorem short_ready_line_counterexample:
  "length [JStr ''ready''] \<noteq> 2 \<and>
   state bootingWorld = Booting \<and>
   state (step examplePaths (IpcData 2 readyOnlyLine (Some (JArr [JStr ''ready'']))) bootingWorld)
     = Up \<and>
   clientLog (step examplePaths (IpcData 2 readyOnlyLine (Some (JArr [JStr ''ready'']))) bootingWorld)
     = clientLog bootingWorld"
  by (simp add: bootingWorld_fields lineStreamOnData_def)

subsection \<open>The recorded resource paths\<close>

lemma bootingWorld_cwd: "entries (fs bootingWorld) ''/p/.fxserver'' = Some Dir"
  by code_simp

lemma refreshResources_resolves:
  assumes "\<not> denied (fs w) (Mkdirp (getProjectServerPath (projectPath r)))"
      and "entries (fs w) (getProjectServerPath (projectPath r)) = Some Dir"
      and "\<not> denied (fs w) (Rimraf (path_join (getProjectServerPath (projectPath r)) ''resources''))"
      and "\<not> denied (fs w) (Mkdirp (path_join (getProjectServerPath (projectPath r)) ''resources''))"
  shows "fst (refreshResources P r w) = Resolved"
proof -
  let ?cwd = "getProjectServerPath (projectPath r)"
  have s: "sys (Mkdirp ?cwd) w = (None, w\<lparr>syscalls := syscalls w @ [Mkdirp ?cwd]\<rparr>)"
    using assms(1,2) by (simp add: sys_def)
  have "fst (linkResources P ?cwd (enabledResourcesPaths r)
               (w\<lparr>syscalls := syscalls w @ [Mkdirp ?cwd]\<rparr>)) = Resolved"
    using assms(3,4) by (intro linkResources_resolves) simp_all
  then show ?thesis
    by (simp add: refreshResources_def Let_def s case_prod_beta split: result.splits)
qed

lemma bootingWorld_refresh_resolves:
  "fst (refreshResources examplePaths refreshRequest bootingWorld) = Resolved"
  by (rule refreshResources_resolves)
     (simp_all add: bootingWorld_denied refreshRequest_def getProjectServerPath_def
        path_join_def bootingWorld_cwd)

text \<open>
  C2 at a concrete input: after \<open>start\<close> with two resources, a \<open>refreshResources\<close>
  with three resolves, and \<open>currentEnabledResourcesPaths\<close> still holds the two of
  \<open>start\<close>. (\<open>refreshResources_frame\<close> shows it for every input: the method never
  assigns the field.)
\<close>

theorem refresh_keeps_recorded_paths:
  "fst (refreshResources examplePaths refreshRequest bootingWorld) = Resolved \<and>
   enabledResourcesPaths refreshRequest = [''/p/res/a'', ''/p/res/b'', ''/p/res/c''] \<and>
   currentEnabledResourcesPaths
       (step examplePaths (ClientRefreshResources refreshRequest) bootingWorld)
     = [''/p/res/a'', ''/p/res/b'']"
  using bootingWorld_refresh_resolves
  by (simp add: bootingWorld_fields) (simp add: refreshRequest_def)

subsection \<open>From start to exit\<close>

lemma lineStreamOnData_state:
  "state (lineStreamOnData m p w)
     = (if \<exists>payload. p = Some (JArr (JStr ''ready'' # payload)) then Up else state w)"
proof (cases p)
  case None
  then show ?thesis by (simp add: lineStreamOnData_def)
next
  case (Some v)
  show ?thesis
  proof (cases v)
    case (JArr xs)
    then show ?thesis using Some by (cases xs) (auto simp: lineStreamOnData_def)
  next
    case (JStr s)
    obtain t d where td: "destructure (JStr s) = Some (t, d)" by simp
    from destructure_string [OF td] show ?thesis
      by (simp add: lineStreamOnData_def Some JStr td del: destructure.simps)
  qed (simp_all add: lineStreamOnData_def Some)
qed

lemma start_launched:
  assumes "start P request Spawned w = (Resolved, w1)"
  shows "children w1 = children w @ [nextId w]" and "server w1 = Some (nextId w)"
    and "state w1 = Booting"
  using assms
  by (auto simp: start_def Let_def case_prod_beta toState_def ackState_def setupIpc_def
        split: option.splits result.splits)

lemma step_between:
  assumes "children w = [pid]" and "\<not> is_start e" and "e \<noteq> ServerExit pid"
  shows "children (step P e w) = [pid]"
    and "state (step P e w) = (if delivers_ready e w then Up else state w)"
proof -
  show "children (step P e w) = [pid]"
    using assms by (cases e) (auto simp: is_start_def split: option.splits)
  show "state (step P e w) = (if delivers_ready e w then Up else state w)"
  proof (cases e)
    case (IpcData sock msg parsed)
    have "delivers_ready e w
        = ((\<exists>payload. parsed = Some (JArr (JStr ''ready'' # payload))) \<and> sock \<in> fst ` set (sockets w))"
      by (auto simp: delivers_ready_def IpcData split: option.splits json.splits list.splits)
    then show ?thesis by (simp add: IpcData lineStreamOnData_state)
  next
    case (ServerExit p)
    with assms show ?thesis by (simp add: delivers_ready_def)
  qed (use assms in \<open>auto simp: is_start_def delivers_ready_def split: option.splits\<close>)
qed

lemma states_between:
  assumes "children w = [pid]"
      and "\<forall>e \<in> set evs. \<not> is_start e \<and> e \<noteq> ServerExit pid"
      and "state w = Booting \<or> state w = Up"
  shows "remdups_adj (states P (evs @ [ServerExit pid]) w)
     = (if state w = Up then [Up, Down]
        else if ready_arrives P evs w then [Booting, Up, Down] else [Booting, Down])"
  using assms
proof (induction evs arbitrary: w)
  case Nil
  then show ?case by auto
next
  case (Cons e es)
  let ?w' = "step P e w"
  from Cons.prems have e: "\<not> is_start e" "e \<noteq> ServerExit pid" by simp_all
  note st = step_between [OF Cons.prems(1) e, of P]
  have "state ?w' = Booting \<or> state ?w' = Up"
    using st(2) Cons.prems(3) by auto
  with Cons.IH [of ?w'] st(1) Cons.prems(2)
  have ih: "remdups_adj (states P (es @ [ServerExit pid]) ?w')
     = (if state ?w' = Up then [Up, Down]
        else if ready_arrives P es ?w' then [Booting, Up, Down] else [Booting, Down])"
    by simp
  have "states P ((e # es) @ [ServerExit pid]) w = state w # states P (es @ [ServerExit pid]) ?w'"
    by simp
  then show ?case
    using ih st(2) Cons.prems(3) by (auto simp: remdups_adj_Cons)
qed

text \<open>
  C1, as the code has it. Take a supervisor that is \<open>Down\<close> with no child process, a
  \<open>start\<close> that launches the server process, any events that are neither another
  \<open>start\<close> nor the exit of that process, and then its exit. The values that \<open>state\<close>
  takes along the run, a value that repeats counted once, are \<open>Down\<close>, \<open>Booting\<close>,
  \<open>Up\<close>, \<open>Down\<close> if a \<open>ready\<close> message is delivered in between, and \<open>Down\<close>,
  \<open>Booting\<close>, \<open>Down\<close> if none is.
\<close>

theorem start_to_exit_states:
  assumes "state w = Down" and "children w = []"
      and "start P request Spawned w = (Resolved, w1)" and "server w1 = Some pid"
      and "\<forall>e \<in> set evs. \<not> is_start e \<and> e \<noteq> ServerExit pid"
  shows "remdups_adj (states P (ClientStart request Spawned # evs @ [ServerExit pid]) w)
     = (if ready_arrives P evs w1 then [Down, Booting, Up, Down] else [Down, Booting, Down])"
proof -
  note l = start_launched [OF assms(3)]
  from l(2) assms(4) have pid: "pid = nextId w" by simp
  have c: "children w1 = [pid]" using l(1) assms(2) pid by simp
  have w1: "step P (ClientStart request Spawned) w = w1" using assms(3) by simp
  have "remdups_adj (states P (evs @ [ServerExit pid]) w1)
     = (if ready_arrives P evs w1 then [Booting, Up, Down] else [Booting, Down])"
    using states_between [OF c assms(5), of P] l(3) by simp
  then show ?thesis
    using assms(1) by (simp add: w1 remdups_adj_Cons del: step.simps)
qed

theorem start_to_exit_states_witness:
  "state (init emptyFs) = Down \<and> children (init emptyFs) = [] \<and>
   fst (start examplePaths exampleRequest Spawned (init emptyFs)) = Resolved \<and>
   server (snd (start examplePaths exampleRequest Spawned (init emptyFs))) = Some 0 \<and>
   remdups_adj (states examplePaths
       (ClientStart exampleRequest Spawned #
        [IpcConnection 1, IpcData 2 readyLine (Some (JArr [JStr ''ready'', JNull])), ClientStop]
        @ [ServerExit 0])
       (init emptyFs)) = [Down, Booting, Up, Down] \<and>
   remdups_adj (states examplePaths
       (ClientStart exampleRequest Spawned # [IpcConnection 1, ClientStop] @ [ServerExit 0])
       (init emptyFs)) = [Down, Booting, Down]"
proof -
  let ?w1 = "snd (start examplePaths exampleRequest Spawned (init emptyFs))"
  let ?ready = "IpcData 2 readyLine (Some (JArr [JStr ''ready'', JNull]))"
  have d: "state (init emptyFs) = Down" and c: "children (init emptyFs) = []"
    by (simp_all add: init_def)
  note s = start_example_resolves
  have r: "fst (start examplePaths exampleRequest Spawned (init emptyFs)) = Resolved"
    using s by (metis fst_conv)
  have p: "server ?w1 = Some 0"
    using start_launched(2) [OF s] by (simp add: init_def)
  have e1: "\<forall>e \<in> set [IpcConnection 1, ?ready, ClientStop]. \<not> is_start e \<and> e \<noteq> ServerExit 0"
    by (simp add: is_start_def)
  have e2: "\<forall>e \<in> set [IpcConnection 1, ClientStop]. \<not> is_start e \<and> e \<noteq> ServerExit 0"
    by (simp add: is_start_def)
  have a1: "ready_arrives examplePaths [IpcConnection 1, ?ready, ClientStop] ?w1"
    by (simp add: delivers_ready_def bootingWorld_step bootingWorld_fields del: step.simps)
  have a2: "\<not> ready_arrives examplePaths [IpcConnection 1, ClientStop] ?w1"
    by (simp add: delivers_ready_def del: step.simps)
  from d c r p a1 a2 show ?thesis
    using start_to_exit_states [OF d c s p e1] start_to_exit_states [OF d c s p e2]
    by simp
qed

lemma start_children: "set (children w) \<subseteq> set (children (snd (start P r sp w)))"
  by (auto simp: start_def Let_def case_prod_beta toState_def ackState_def setupIpc_def
        split: option.splits result.splits)

lemma start_resolves:
  assumes "\<not> denied (fs w) (Mkdirp (getProjectServerPath (projectPath r)))"
      and "entries (fs w) (getProjectServerPath (projectPath r)) = Some Dir"
      and "\<not> denied (fs w) (Rimraf (path_join (getProjectServerPath (projectPath r)) ''resources''))"
      and "\<not> denied (fs w) (Mkdirp (path_join (getProjectServerPath (projectPath r)) ''resources''))"
  shows "fst (start P r sp w) = Resolved"
proof -
  let ?cwd = "getProjectServerPath (projectPath r)"
  let ?w3 = "toState Booting (client_emit EmitClearOutput
     (client_log (LogStartingServer (projectPath r) (enabledResourcesPaths r)) w))"
  have s: "sys (Mkdirp ?cwd) ?w3 = (None, ?w3\<lparr>syscalls := syscalls ?w3 @ [Mkdirp ?cwd]\<rparr>)"
    using assms(1,2) by (simp add: sys_def)
  have "fst (linkResources P ?cwd (enabledResourcesPaths r)
               (?w3\<lparr>syscalls := syscalls ?w3 @ [Mkdirp ?cwd]\<rparr>)) = Resolved"
    using assms(3,4) by (intro linkResources_resolves) simp_all
  then show ?thesis
    by (simp add: start_def Let_def s case_prod_beta split: result.splits)
qed

lemma bootingWorld_step1:
  "step examplePaths (IpcConnection 1)
       (snd (start examplePaths exampleRequest Spawned (init emptyFs)))
     = bootingWorld"
  by (simp add: bootingWorld_def)

lemma upWorld_step:
  "step examplePaths (IpcData 2 readyLine (Some (JArr [JStr ''ready'', JNull]))) bootingWorld
     = upWorld"
  by (simp only: upWorld_def)

lemma states_second_start:
  "states examplePaths
     [ClientStart exampleRequest Spawned, IpcConnection 1,
      IpcData 2 readyLine (Some (JArr [JStr ''ready'', JNull])),
      ClientStart exampleRequest Spawned, ServerExit 0]
     (init emptyFs)
   = [Down, Booting, Booting, Up, Booting, Down]"
proof -
  let ?w1 = "snd (start examplePaths exampleRequest Spawned (init emptyFs))"
  let ?w4 = "snd (start examplePaths exampleRequest Spawned upWorld)"
  have "0 \<in> set (children ?w4)"
    using start_children [of upWorld examplePaths exampleRequest Spawned]
    by (auto simp: upWorld_fields)
  then have x: "state (step examplePaths (ServerExit 0) ?w4) = Down" by simp
  have "states examplePaths
     [ClientStart exampleRequest Spawned, IpcConnection 1,
      IpcData 2 readyLine (Some (JArr [JStr ''ready'', JNull])),
      ClientStart exampleRequest Spawned, ServerExit 0]
     (init emptyFs)
   = [state (init emptyFs), state ?w1, state bootingWorld, state upWorld, state ?w4,
      state (step examplePaths (ServerExit 0) ?w4)]"
    by (simp only: states.simps step.simps(2) bootingWorld_step1 upWorld_step)
  then show ?thesis
    by (simp add: x init_def bootingWorld_fields upWorld_fields del: step.simps)
qed

lemma states_ready_after_exit:
  "states examplePaths
     [ClientStart exampleRequest Spawned, IpcConnection 1, ServerExit 0,
      IpcData 2 readyLine (Some (JArr [JStr ''ready'', JNull])),
      ClientStart exampleRequest Spawned, ServerExit 7]
     (init emptyFs)
   = [Down, Booting, Booting, Down, Up, Booting, Down]"
proof -
  let ?w1 = "snd (start examplePaths exampleRequest Spawned (init emptyFs))"
  let ?w3 = "step examplePaths (ServerExit 0) bootingWorld"
  let ?w4 = "step examplePaths (IpcData 2 readyLine (Some (JArr [JStr ''ready'', JNull]))) ?w3"
  let ?w5 = "snd (start examplePaths exampleRequest Spawned ?w4)"
  have w3: "state ?w3 = Down" "sockets ?w3 = [(2, 1)]" "children ?w3 = []" "nextId ?w3 = 7"
      "fs ?w3 = fs bootingWorld"
    by (simp_all add: bootingWorld_fields)
  have w4: "state ?w4 = Up" "children ?w4 = []" "nextId ?w4 = 7" "fs ?w4 = fs bootingWorld"
    using w3 by (simp_all add: lineStreamOnData_state del: step.simps(13))
  have "fst (start examplePaths exampleRequest Spawned ?w4) = Resolved"
    by (rule start_resolves)
       (simp_all only: w4(4) bootingWorld_denied,
        simp_all add: exampleRequest_def getProjectServerPath_def path_join_def bootingWorld_cwd)
  then have "start examplePaths exampleRequest Spawned ?w4 = (Resolved, ?w5)"
    by (metis prod.collapse)
  from start_resolved(2) [OF this] have "children ?w5 = [7]"
    by (simp only: w4(2,3) append_Nil)
  then have x: "state (step examplePaths (ServerExit 7) ?w5) = Down" by simp
  have "states examplePaths
     [ClientStart exampleRequest Spawned, IpcConnection 1, ServerExit 0,
      IpcData 2 readyLine (Some (JArr [JStr ''ready'', JNull])),
      ClientStart exampleRequest Spawned, ServerExit 7]
     (init emptyFs)
   = [state (init emptyFs), state ?w1, state bootingWorld, state ?w3, state ?w4, state ?w5,
      state (step examplePaths (ServerExit 7) ?w5)]"
    by (simp only: states.simps step.simps(2) bootingWorld_step1)
  then show ?thesis
    by (simp only: x w3(1) w4(1) start_frame(1) bootingWorld_fields(1))
       (simp add: init_def)
qed

text \<open>
  C1 as stated fails, since neither \<open>start\<close> nor the callback for \<open>ready\<close> looks at
  the state. A second \<open>start\<close> after \<open>ready\<close> takes the state from \<open>Up\<close> back to
  \<open>Booting\<close> before the first process exits. And a \<open>ready\<close> line that is still
  delivered after the process has exited takes the state from \<open>Down\<close> to \<open>Up\<close>, from
  where the next \<open>start\<close> and exit go on.
\<close>

theorem second_start_counterexample:
  "remdups_adj (states examplePaths
     [ClientStart exampleRequest Spawned, IpcConnection 1,
      IpcData 2 readyLine (Some (JArr [JStr ''ready'', JNull])),
      ClientStart exampleRequest Spawned, ServerExit 0]
     (init emptyFs))
   = [Down, Booting, Up, Booting, Down] \<and>
   remdups_adj (states examplePaths
     [ClientStart exampleRequest Spawned, IpcConnection 1, ServerExit 0,
      IpcData 2 readyLine (Some (JArr [JStr ''ready'', JNull])),
      ClientStart exampleRequest Spawned, ServerExit 7]
     (init emptyFs))
   = [Down, Booting, Down, Up, Booting, Down]"
  by (simp only: states_second_start states_ready_after_exit) simp

subsection \<open>Handlers and the endpoint's close\<close>

lemma start_nextId: "nextId w \<le> nextId (snd (start P r sp w))"
  by (simp add: start_def Let_def case_prod_beta toState_def ackState_def setupIpc_def
        split: option.splits result.splits)

lemma start_endpoints:
  "endpoints (snd (start P r sp w)) = endpoints w \<or>
   (endpoints (snd (start P r sp w))
      = (endpoints w)(Suc (nextId w) \<mapsto> \<lparr>listening = True, disposableHandlers = []\<rparr>) \<and>
    nextId (snd (start P r sp w)) = Suc (Suc (nextId w)))"
  by (simp add: start_def Let_def case_prod_beta toState_def ackState_def setupIpc_def
        split: option.splits result.splits)

lemma serverOnExit_endpoints:
  "endpoints (serverOnExit w) srv = Some ep \<Longrightarrow>
     \<exists>ep'. endpoints w srv = Some ep' \<and> disposableHandlers ep' = disposableHandlers ep"
  by (auto simp: serverOnExit_def Let_def closeEndpoint_def split: option.splits if_splits)

lemma serverOnExit_endpoints_kept:
  "endpoints w srv = Some ep \<Longrightarrow>
     \<exists>ep'. endpoints (serverOnExit w) srv = Some ep' \<and>
           disposableHandlers ep' = disposableHandlers ep"
  by (auto simp: serverOnExit_def Let_def closeEndpoint_def split: option.splits if_splits)

lemma ipcServerOnConnection_endpoints:
  "endpoints w srv = Some ep \<Longrightarrow>
     endpoints (ipcServerOnConnection srv sock w)
       = (endpoints w)(srv \<mapsto> ep\<lparr>disposableHandlers :=
            disposableHandlers ep @ [nextId w, Suc (nextId w), Suc (Suc (nextId w)),
                                    Suc (Suc (Suc (nextId w)))]\<rparr>)"
  by (simp add: ipcServerOnConnection_def Let_def client_on_def)

lemma ipcServerOnClose_endpoints:
  "endpoints w srv = Some ep \<Longrightarrow>
     endpoints (ipcServerOnClose srv w) = (endpoints w)(srv \<mapsto> ep\<lparr>disposableHandlers := []\<rparr>)"
  by (simp add: ipcServerOnClose_def Let_def)

lemma ipcServerOnClose_registered:
  "endpoints w srv = Some ep \<Longrightarrow>
     registered (ipcServerOnClose srv w)
       = filter (\<lambda>r. fst r \<notin> set (disposableHandlers ep)) (registered w)"
  by (simp add: ipcServerOnClose_def Let_def fold_dispose_registered)

lemma ipcServerOnClose_peer:
  "endpoints w srv = Some ep \<Longrightarrow> ipcSocket (ipcServerOnClose srv w) = None"
  by (simp add: ipcServerOnClose_def Let_def)

lemma step_nextId: "nextId w \<le> nextId (step P e w)"
  by (cases e) (simp_all add: start_nextId split: option.splits)

lemma handlers_tracked_same:
  assumes "handlers_tracked w"
      and "endpoints w' = endpoints w" and "registered w' = registered w"
      and "registeredBy w' = registeredBy w" and "nextId w' = nextId w"
  shows "handlers_tracked w'"
  using assms by (simp add: handlers_tracked_def)

lemma handlers_tracked_start:
  assumes "handlers_tracked w"
  shows "handlers_tracked (snd (start P r sp w))"
proof -
  let ?w' = "snd (start P r sp w)"
  from start_endpoints [of P r sp w] show ?thesis
  proof
    assume e: "endpoints ?w' = endpoints w"
    have n: "nextId w \<le> nextId ?w'" by (rule start_nextId)
    show ?thesis
      unfolding handlers_tracked_def
    proof (intro conjI allI impI)
      fix srv ep assume "endpoints ?w' srv = Some ep"
      with assms e n show "srv < nextId ?w'" by (fastforce simp: handlers_tracked_def)
    next
      fix h sock srv assume "(h, sock, srv) \<in> set (registeredBy ?w')"
      with assms n show "h < nextId ?w'" by (fastforce simp: handlers_tracked_def)
    next
      fix h sock srv
      assume "(h, sock, srv) \<in> set (registeredBy ?w')" "h \<in> fst ` set (registered ?w')"
      with assms e show "\<exists>ep. endpoints ?w' srv = Some ep \<and> h \<in> set (disposableHandlers ep)"
        by (simp add: handlers_tracked_def)
    qed
  next
    assume a: "endpoints ?w'
        = (endpoints w)(Suc (nextId w) \<mapsto> \<lparr>listening = True, disposableHandlers = []\<rparr>) \<and>
      nextId ?w' = Suc (Suc (nextId w))"
    then have e: "endpoints ?w'
        = (endpoints w)(Suc (nextId w) \<mapsto> \<lparr>listening = True, disposableHandlers = []\<rparr>)"
      and n: "nextId ?w' = Suc (Suc (nextId w))" by simp_all
    have fresh: "endpoints w (Suc (nextId w)) = None"
    proof (cases "endpoints w (Suc (nextId w))")
      case (Some ep)
      with assms have "Suc (nextId w) < nextId w" unfolding handlers_tracked_def by blast
      then show ?thesis by simp
    qed simp
    show ?thesis
      unfolding handlers_tracked_def
    proof (intro conjI allI impI)
      fix srv ep assume "endpoints ?w' srv = Some ep"
      then have "srv = Suc (nextId w) \<or> endpoints w srv = Some ep"
        by (simp add: e split: if_splits)
      with assms show "srv < nextId ?w'"
        unfolding handlers_tracked_def n by fastforce
    next
      fix h sock srv assume "(h, sock, srv) \<in> set (registeredBy ?w')"
      with assms show "h < nextId ?w'"
        unfolding handlers_tracked_def n by fastforce
    next
      fix h sock srv
      assume "(h, sock, srv) \<in> set (registeredBy ?w')" "h \<in> fst ` set (registered ?w')"
      with assms obtain ep where ep: "endpoints w srv = Some ep" "h \<in> set (disposableHandlers ep)"
        unfolding handlers_tracked_def by fastforce
      with fresh have "srv \<noteq> Suc (nextId w)" by auto
      with ep show "\<exists>ep. endpoints ?w' srv = Some ep \<and> h \<in> set (disposableHandlers ep)"
        by (simp add: e)
    qed
  qed
qed

lemma handlers_tracked_exit:
  assumes "handlers_tracked w"
  shows "handlers_tracked (serverOnExit (w\<lparr>children := cs\<rparr>))"
proof -
  let ?v = "w\<lparr>children := cs\<rparr>"
  let ?w' = "serverOnExit ?v"
  show ?thesis
    unfolding handlers_tracked_def
  proof (intro conjI allI impI)
    fix srv ep assume "endpoints ?w' srv = Some ep"
    from serverOnExit_endpoints [OF this] obtain ep' where "endpoints w srv = Some ep'" by auto
    with assms show "srv < nextId ?w'" unfolding handlers_tracked_def by fastforce
  next
    fix h sock srv assume "(h, sock, srv) \<in> set (registeredBy ?w')"
    with assms show "h < nextId ?w'" unfolding handlers_tracked_def by fastforce
  next
    fix h sock srv
    assume "(h, sock, srv) \<in> set (registeredBy ?w')" "h \<in> fst ` set (registered ?w')"
    with assms obtain ep where ep: "endpoints ?v srv = Some ep" "h \<in> set (disposableHandlers ep)"
      unfolding handlers_tracked_def by fastforce
    from serverOnExit_endpoints_kept [OF ep(1)] ep(2)
    show "\<exists>ep. endpoints ?w' srv = Some ep \<and> h \<in> set (disposableHandlers ep)" by auto
  qed
qed

lemma handlers_tracked_connection:
  assumes "handlers_tracked w" and ep: "endpoints w s = Some ep"
  shows "handlers_tracked
           (ipcServerOnConnection s (nextId w)
              (w\<lparr>sockets := sockets w @ [(nextId w, s)], nextId := Suc (nextId w)\<rparr>))"
proof -
  let ?n = "nextId w"
  let ?v = "w\<lparr>sockets := sockets w @ [(?n, s)], nextId := Suc ?n\<rparr>"
  let ?w' = "ipcServerOnConnection s ?n ?v"
  let ?new = "[Suc ?n, Suc (Suc ?n), Suc (Suc (Suc ?n)), Suc (Suc (Suc (Suc ?n)))]"
  have e: "endpoints ?w'
      = (endpoints w)(s \<mapsto> ep\<lparr>disposableHandlers := disposableHandlers ep @ ?new\<rparr>)"
    using ipcServerOnConnection_endpoints [of ?v s ep ?n] ep by simp
  have n: "nextId ?w' = ?n + 5" by simp
  have r: "fst ` set (registered ?w') = fst ` set (registered w) \<union> set ?new" by auto
  have b: "set (registeredBy ?w') = set (registeredBy w) \<union> (\<lambda>h. (h, ?n, s)) ` set ?new"
    by auto
  show ?thesis
    unfolding handlers_tracked_def
  proof (intro conjI allI impI)
    fix srv ep' assume "endpoints ?w' srv = Some ep'"
    then have "endpoints w srv \<noteq> None" using ep by (auto simp: e split: if_splits)
    with assms(1) show "srv < nextId ?w'" unfolding handlers_tracked_def n by fastforce
  next
    fix h sock srv assume "(h, sock, srv) \<in> set (registeredBy ?w')"
    then have "(h, sock, srv) \<in> set (registeredBy w) \<or> h \<in> set ?new" unfolding b by auto
    with assms(1) show "h < nextId ?w'" unfolding handlers_tracked_def n by fastforce
  next
    fix h sock srv
    assume a: "(h, sock, srv) \<in> set (registeredBy ?w')" "h \<in> fst ` set (registered ?w')"
    from a(1) have "(h, sock, srv) \<in> set (registeredBy w) \<or> (h \<in> set ?new \<and> srv = s)"
      unfolding b by auto
    then show "\<exists>ep. endpoints ?w' srv = Some ep \<and> h \<in> set (disposableHandlers ep)"
    proof
      assume old: "(h, sock, srv) \<in> set (registeredBy w)"
      with assms(1) have "h < ?n" unfolding handlers_tracked_def by fastforce
      with a(2) have "h \<in> fst ` set (registered w)" unfolding r by auto
      with assms(1) old obtain ep' where "endpoints w srv = Some ep'"
          "h \<in> set (disposableHandlers ep')"
        unfolding handlers_tracked_def by fastforce
      with ep show ?thesis by (auto simp: e)
    next
      assume "h \<in> set ?new \<and> srv = s"
      then show ?thesis by (auto simp: e)
    qed
  qed
qed

lemma handlers_tracked_close:
  assumes "handlers_tracked w" and ep: "endpoints w s = Some ep"
  shows "handlers_tracked
           ((ipcServerOnClose s w)\<lparr>endpoints := (endpoints (ipcServerOnClose s w))(s := None)\<rparr>)"
proof -
  let ?w' = "(ipcServerOnClose s w)\<lparr>endpoints := (endpoints (ipcServerOnClose s w))(s := None)\<rparr>"
  have e: "endpoints ?w' = (endpoints w)(s := None)"
    by (simp add: ipcServerOnClose_endpoints [OF ep])
  have r: "registered ?w' = filter (\<lambda>r. fst r \<notin> set (disposableHandlers ep)) (registered w)"
    by (simp add: ipcServerOnClose_registered [OF ep])
  show ?thesis
    unfolding handlers_tracked_def
  proof (intro conjI allI impI)
    fix srv ep' assume "endpoints ?w' srv = Some ep'"
    then have "endpoints w srv = Some ep'" by (simp add: e split: if_splits)
    with assms(1) show "srv < nextId ?w'" unfolding handlers_tracked_def by fastforce
  next
    fix h sock srv assume "(h, sock, srv) \<in> set (registeredBy ?w')"
    with assms(1) show "h < nextId ?w'" unfolding handlers_tracked_def by fastforce
  next
    fix h sock srv
    assume a: "(h, sock, srv) \<in> set (registeredBy ?w')" "h \<in> fst ` set (registered ?w')"
    from a(2) have reg: "h \<in> fst ` set (registered w)"
      and out: "h \<notin> set (disposableHandlers ep)"
      unfolding r by auto
    from assms(1) a(1) reg obtain ep' where ep': "endpoints w srv = Some ep'"
        "h \<in> set (disposableHandlers ep')"
      unfolding handlers_tracked_def by fastforce
    with ep out have "srv \<noteq> s" by auto
    with ep' show "\<exists>ep. endpoints ?w' srv = Some ep \<and> h \<in> set (disposableHandlers ep)"
      by (simp add: e)
  qed
qed

lemma step_handlers_tracked:
  assumes "handlers_tracked w"
  shows "handlers_tracked (step P e w)"
proof (cases e)
  case (ClientStart r sp)
  then show ?thesis using handlers_tracked_start [OF assms] by simp
next
  case (ServerExit p)
  then show ?thesis using handlers_tracked_exit [OF assms] assms by simp
next
  case (IpcConnection s)
  then show ?thesis
    using handlers_tracked_connection [OF assms] assms by (simp split: option.splits)
next
  case (IpcServerClose s)
  then show ?thesis
    using handlers_tracked_close [OF assms] assms by (simp split: option.splits)
qed (auto intro!: handlers_tracked_same [OF assms])

lemma run_handlers_tracked: "handlers_tracked w \<Longrightarrow> handlers_tracked (run P es w)"
  by (induction es arbitrary: w) (simp_all add: step_handlers_tracked)

lemma init_handlers_tracked: "handlers_tracked (init f)"
  by (simp add: handlers_tracked_def init_def)

lemma step_registered:
  "r \<in> set (registered (step P e w)) \<Longrightarrow> r \<in> set (registered w) \<or> nextId w \<le> fst r"
  by (cases e) (auto simp: fold_dispose_registered ipcServerOnClose_def Let_def
        split: option.splits if_splits)

lemma step_invoked:
  "\<exists>hs. invoked (step P e w) = invoked w @ hs \<and> set hs \<subseteq> fst ` set (registered w)"
  by (cases e) (auto simp: deliver_invoked split: option.splits)

lemma run_after_dispose:
  assumes "h < nextId w" and "h \<notin> fst ` set (registered w)"
  shows "count_list (invoked (run P es w)) h = count_list (invoked w) h"
  using assms
proof (induction es arbitrary: w)
  case Nil
  then show ?case by simp
next
  case (Cons e es)
  let ?w' = "step P e w"
  have n: "h < nextId ?w'" using Cons.prems(1) step_nextId [of w P e] by simp
  have r: "h \<notin> fst ` set (registered ?w')"
  proof
    assume "h \<in> fst ` set (registered ?w')"
    then obtain x where x: "x \<in> set (registered ?w')" "fst x = h" by auto
    from step_registered [OF x(1)] x(2) Cons.prems show False by auto
  qed
  obtain hs where hs: "invoked ?w' = invoked w @ hs" "set hs \<subseteq> fst ` set (registered w)"
    using step_invoked by blast
  with Cons.prems(2) have "h \<notin> set hs" by auto
  then have "count_list (invoked ?w') h = count_list (invoked w) h"
    by (simp add: hs(1) count_list_0_iff)
  with Cons.IH [OF n r] show ?case by simp
qed

text \<open>
  C3, as the code has it. The handlers are released by the \<open>close\<close> callback of the
  listening endpoint, not by the end of a connection. In every world the supervisor can
  reach, when an endpoint that was closed and has no open socket emits \<open>close\<close>, the
  peer reference is cleared, and every handler that any connection of this endpoint has
  ever registered is off the bus and is not invoked again by any later run.
\<close>

theorem endpoint_close_releases_handlers:
  assumes "w = run P evs0 (init f)"
      and "endpoints w srv = Some ep" and "\<not> listening ep" and "srv \<notin> snd ` set (sockets w)"
      and "(h, sock, srv) \<in> set (registeredBy w)"
  shows "ipcSocket (step P (IpcServerClose srv) w) = None \<and>
         h \<notin> fst ` set (registered (step P (IpcServerClose srv) w)) \<and>
         (\<forall>evs. count_list (invoked (run P evs (step P (IpcServerClose srv) w))) h
                  = count_list (invoked w) h)"
proof -
  let ?w' = "step P (IpcServerClose srv) w"
  have st: "?w' = (ipcServerOnClose srv w)\<lparr>endpoints := (endpoints (ipcServerOnClose srv w))(srv := None)\<rparr>"
    using assms(2,3,4) by simp
  have t: "handlers_tracked w"
    unfolding assms(1) by (rule run_handlers_tracked [OF init_handlers_tracked])
  with assms(5) have n: "h < nextId w" unfolding handlers_tracked_def by blast
  have s: "ipcSocket ?w' = None"
    unfolding st by (simp add: ipcServerOnClose_peer [OF assms(2)])
  have r: "h \<notin> fst ` set (registered ?w')"
  proof
    assume a: "h \<in> fst ` set (registered ?w')"
    then have reg: "h \<in> fst ` set (registered w)"
      and out: "h \<notin> set (disposableHandlers ep)"
      unfolding st by (auto simp: ipcServerOnClose_registered [OF assms(2)])
    from t assms(5) reg obtain ep' where "endpoints w srv = Some ep'"
        "h \<in> set (disposableHandlers ep')"
      unfolding handlers_tracked_def by blast
    with assms(2) out show False by simp
  qed
  have i: "invoked ?w' = invoked w" unfolding st by simp
  have n': "h < nextId ?w'" unfolding st using n by simp
  from run_after_dispose [OF n' r] i s r show ?thesis by simp
qed

lemma run_append: "run P (xs @ ys) w = run P ys (run P xs w)"
  by (induction xs arbitrary: w) simp_all

lemma secondConnectionWorld_eq:
  "secondConnectionWorld
     = ipcServerOnConnection (Suc 0) 7 (bootingWorld\<lparr>sockets := [(7, 1)], nextId := 8\<rparr>)"
  by (simp add: secondConnectionWorld_def bootingWorld_fields)

lemma secondConnectionWorld_fields:
  "state secondConnectionWorld = Booting"
  "ipcSocket secondConnectionWorld = Some 7"
  "ipcServer secondConnectionWorld = Some 1"
  "registered secondConnectionWorld
     = [(3, AckResourcesState), (4, RestartResource), (5, StopResource), (6, StartResource),
        (8, AckResourcesState), (9, RestartResource), (10, StopResource), (11, StartResource)]"
  "invoked secondConnectionWorld = []"
  "sockets secondConnectionWorld = [(7, 1)]"
  "children secondConnectionWorld = [0]"
  "registeredBy secondConnectionWorld
     = [(3, 2, 1), (4, 2, 1), (5, 2, 1), (6, 2, 1), (8, 7, 1), (9, 7, 1), (10, 7, 1), (11, 7, 1)]"
  "endpoints secondConnectionWorld (Suc 0)
     = Some \<lparr>listening = True, disposableHandlers = [3, 4, 5, 6, 8, 9, 10, 11]\<rparr>"
proof -
  let ?v = "bootingWorld\<lparr>sockets := [(7, 1)], nextId := 8\<rparr>"
  have e: "endpoints ?v (Suc 0) = Some \<lparr>listening = True, disposableHandlers = [3, 4, 5, 6]\<rparr>"
    by (simp add: bootingWorld_fields)
  show "endpoints secondConnectionWorld (Suc 0)
     = Some \<lparr>listening = True, disposableHandlers = [3, 4, 5, 6, 8, 9, 10, 11]\<rparr>"
    unfolding secondConnectionWorld_eq ipcServerOnConnection_endpoints [OF e] by simp
qed (simp_all add: secondConnectionWorld_eq bootingWorld_fields)

lemma closingWorld_step:
  "closingWorld
     = step examplePaths (IpcSocketEnd 7) (step examplePaths (ServerExit 0) secondConnectionWorld)"
  by (simp only: closingWorld_def secondConnectionWorld_def run.simps)

lemma closingWorld_fields:
  "endpoints closingWorld (Suc 0)
     = Some \<lparr>listening = False, disposableHandlers = [3, 4, 5, 6, 8, 9, 10, 11]\<rparr>"
  "sockets closingWorld = []"
  "invoked closingWorld = []"
  "registeredBy closingWorld
     = [(3, 2, 1), (4, 2, 1), (5, 2, 1), (6, 2, 1), (8, 7, 1), (9, 7, 1), (10, 7, 1), (11, 7, 1)]"
  by (simp_all add: closingWorld_step secondConnectionWorld_fields serverOnExit_def Let_def
        closeEndpoint_def toState_def ackState_def client_emit_def)

lemma closingWorld_run:
  "closingWorld
     = run examplePaths
         [ClientStart exampleRequest Spawned, IpcConnection 1, IpcSocketEnd 2, IpcConnection 1,
          ServerExit 0, IpcSocketEnd 7]
         (init emptyFs)"
  by (simp only: closingWorld_def secondConnectionWorld_def bootingWorld_def run.simps)

theorem endpoint_close_releases_handlers_witness:
  "endpoints closingWorld 1
     = Some \<lparr>listening = False, disposableHandlers = [3, 4, 5, 6, 8, 9, 10, 11]\<rparr> \<and>
   sockets closingWorld = [] \<and>
   (4, 2, 1) \<in> set (registeredBy closingWorld) \<and>
   (9, 7, 1) \<in> set (registeredBy closingWorld) \<and>
   ipcSocket (step examplePaths (IpcServerClose 1) closingWorld) = None \<and>
   4 \<notin> fst ` set (registered (step examplePaths (IpcServerClose 1) closingWorld)) \<and>
   9 \<notin> fst ` set (registered (step examplePaths (IpcServerClose 1) closingWorld)) \<and>
   count_list (invoked (run examplePaths [ClientRestartResource ''a'']
                          (step examplePaths (IpcServerClose 1) closingWorld))) 4 = 0 \<and>
   count_list (invoked (run examplePaths [ClientRestartResource ''a'']
                          (step examplePaths (IpcServerClose 1) closingWorld))) 9 = 0"
proof -
  let ?ep = "\<lparr>listening = False, disposableHandlers = [3, 4, 5, 6, 8, 9, 10, 11]\<rparr>"
  let ?after = "run examplePaths [ClientRestartResource ''a'']
                  (step examplePaths (IpcServerClose 1) closingWorld)"
  have a: "endpoints closingWorld 1 = Some ?ep" by (simp add: closingWorld_fields)
  have b: "\<not> listening ?ep" by simp
  have c: "1 \<notin> snd ` set (sockets closingWorld)" by (simp add: closingWorld_fields)
  have d4: "(4, 2, 1) \<in> set (registeredBy closingWorld)" by (simp add: closingWorld_fields)
  have d9: "(9, 7, 1) \<in> set (registeredBy closingWorld)" by (simp add: closingWorld_fields)
  note t4 = endpoint_close_releases_handlers [OF closingWorld_run a b c d4]
  note t9 = endpoint_close_releases_handlers [OF closingWorld_run a b c d9]
  from t4 have "count_list (invoked ?after) 4 = count_list (invoked closingWorld) 4" by blast
  then have i4: "count_list (invoked ?after) 4 = 0"
    by (simp only: closingWorld_fields(3) count_list.simps)
  from t9 have "count_list (invoked ?after) 9 = count_list (invoked closingWorld) 9" by blast
  then have i9: "count_list (invoked ?after) 9 = 0"
    by (simp only: closingWorld_fields(3) count_list.simps)
  from a d4 d9 t4 t9 i4 i9 show ?thesis
    by (simp only: closingWorld_fields(2) simp_thms)
qed

lemma reconnectedWorld_step:
  "reconnectedWorld = step examplePaths (ClientRestartResource ''a'') secondConnectionWorld"
  by (simp add: reconnectedWorld_def secondConnectionWorld_def del: step.simps)

text \<open>
  C3 as stated fails: when the bridge's connection (socket 2) ends, \<open>ipcSocket\<close> still
  refers to it and its four handlers stay registered; after the bridge has connected
  again (socket 7), a \<open>restartResource\<close> event invokes handler 4 of the closed
  connection as well as handler 9 of the new one.
\<close>

theorem closed_connection_handlers_counterexample:
  "sockets bootingWorld = [(2, 1)] \<and>
   registered bootingWorld
     = [(3, AckResourcesState), (4, RestartResource), (5, StopResource), (6, StartResource)] \<and>
   sockets (step examplePaths (IpcSocketEnd 2) bootingWorld) = [] \<and>
   ipcSocket (step examplePaths (IpcSocketEnd 2) bootingWorld) = Some 2 \<and>
   registered (step examplePaths (IpcSocketEnd 2) bootingWorld) = registered bootingWorld \<and>
   sockets reconnectedWorld = [(7, 1)] \<and>
   invoked reconnectedWorld = [4, 9]"
  by (simp add: bootingWorld_fields reconnectedWorld_step secondConnectionWorld_fields
        deliver_invoked)

end
